theory Spec2Isabelle
  imports Main "HOL-Library.Sublist"
begin

section \<open>Python string primitives used by the sources\<close>

text \<open>
  Python's \<^verbatim>\<open>s.startswith(p)\<close> and \<^verbatim>\<open>s.endswith(p)\<close> on \<^typ>\<open>string\<close>
  (a list of characters).
\<close>

definition startswith :: "string \<Rightarrow> string \<Rightarrow> bool" where
  "startswith s p = prefix p s"

definition endswith :: "string \<Rightarrow> string \<Rightarrow> bool" where
  "endswith s p = suffix p s"

section \<open>system\_utils.py: Unraid path utilities\<close>

text \<open>
  The module-level global \<^verbatim>\<open>_zfs_user_prefixes\<close> is a Python set of strings. The
  model keeps its elements in the order in which the \<^verbatim>\<open>for\<close> loop of
  \<^verbatim>\<open>get_array_direct_path\<close> visits them; the result does not depend on that order
  (lemma \<open>zfs_prefix_loop_iff\<close>).
\<close>

record module_globals =
  zfs_user_prefixes :: "string list"

definition initial_globals :: module_globals where
  "initial_globals = \<lparr>zfs_user_prefixes = []\<rparr>"

definition set_zfs_prefixes :: "string list \<Rightarrow> module_globals \<Rightarrow> module_globals" where
  "set_zfs_prefixes new_prefixes g = g\<lparr>zfs_user_prefixes := new_prefixes\<rparr>"

text \<open>
  The loop \<^verbatim>\<open>for prefix in _zfs_user_prefixes: if user_share_path.startswith(prefix): return ...\<close>;
  \<open>True\<close> stands for the early return inside the loop.
\<close>

fun zfs_prefix_loop :: "string list \<Rightarrow> string \<Rightarrow> bool" where
  "zfs_prefix_loop [] user_share_path = False"
| "zfs_prefix_loop (pre # rest) user_share_path =
     (if startswith user_share_path pre then True
      else zfs_prefix_loop rest user_share_path)"

definition get_array_direct_path :: "module_globals \<Rightarrow> string \<Rightarrow> string" where
  "get_array_direct_path g user_share_path =
     (if startswith user_share_path ''/mnt/user/'' then
        (if zfs_prefix_loop (zfs_user_prefixes g) user_share_path
         then user_share_path
         else ''/mnt/user0/'' @ drop (length ''/mnt/user/'') user_share_path)
      else user_share_path)"

section \<open>web/services/maintenance\_runner.py\<close>

subsection \<open>Values, exceptions and the logger\<close>

text \<open>
  A Python exception a callable may raise, with \<^verbatim>\<open>str(e)\<close> as its payload.
  \<open>PyException\<close> stands for every subclass of \<^verbatim>\<open>Exception\<close> (what
  \<^verbatim>\<open>except Exception\<close> catches), \<open>PyBaseException\<close> for the others
  (\<^verbatim>\<open>SystemExit\<close>, \<^verbatim>\<open>KeyboardInterrupt\<close>), which that clause lets through.
\<close>

datatype py_exc = PyException string | PyBaseException string

datatype 'a outcome = Returned 'a | Raised py_exc

datatype log_level = LogDebug | LogInfo | LogError | LogException

type_synonym log_record = "log_level \<times> string"

text \<open>Clock readings (\<^verbatim>\<open>datetime.now()\<close>, \<^verbatim>\<open>time.time()\<close>) are inputs of the model.\<close>

type_synonym timestamp = int

text \<open>\<^verbatim>\<open>str(n)\<close> for a Python int: decimal digits, with a minus sign when negative.\<close>

definition digit_char :: "nat \<Rightarrow> char" where
  "digit_char d = ''0123456789'' ! d"

function str_nat :: "nat \<Rightarrow> string" where
  "str_nat n = (if n < 10 then [digit_char n] else str_nat (n div 10) @ [digit_char (n mod 10)])"
  by pat_completeness auto
termination
  by (relation "measure (\<lambda>n. n)") auto

definition str_int :: "int \<Rightarrow> string" where
  "str_int i = (if i < 0 then ''-'' @ str_nat (nat (- i)) else str_nat (nat i))"

text \<open>
  \<^verbatim>\<open>template.format(count=file_count)\<close> for the templates of \<^verbatim>\<open>ACTION_DISPLAY\<close>, whose
  only replacement field is \<^verbatim>\<open>{count}\<close>: every occurrence of the field is replaced by
  the text \<open>c\<close>.
\<close>

fun format_count :: "string \<Rightarrow> string \<Rightarrow> string" where
  "format_count [] c = []"
| "format_count (x # xs) c =
     (if prefix ''{count}'' (x # xs) then c @ format_count (drop 6 xs) c
      else x # format_count xs c)"

definition ACTION_DISPLAY :: "(string \<times> string) list" where
  "ACTION_DISPLAY =
     [(''protect-with-backup'', ''Keeping {count} file(s) on cache...''),
      (''sync-to-array'', ''Moving {count} file(s) to array...''),
      (''fix-with-backup'', ''Fixing {count} file(s) with backup...''),
      (''restore-plexcached'', ''Restoring {count} backup(s)...''),
      (''delete-plexcached'', ''Deleting {count} backup(s)...'')]"

text \<open>\<^verbatim>\<open>ACTION_DISPLAY.get(action_name, "Running maintenance action...")\<close>.\<close>

definition action_display_template :: "string \<Rightarrow> string" where
  "action_display_template aname =
     (case map_of ACTION_DISPLAY aname of
        Some t \<Rightarrow> t
      | None \<Rightarrow> ''Running maintenance action...'')"

subsection \<open>MaintenanceState, ActionResult, MaintenanceResult\<close>

datatype MaintenanceState = IDLE | RUNNING | COMPLETED | FAILED

text \<open>The \<^verbatim>\<open>.value\<close> of the string enum.\<close>

fun state_value :: "MaintenanceState \<Rightarrow> string" where
  "state_value IDLE = ''idle''"
| "state_value RUNNING = ''running''"
| "state_value COMPLETED = ''completed''"
| "state_value FAILED = ''failed''"

text \<open>
  Modelled from the spec: \<^verbatim>\<open>ActionResult\<close> is declared in
  \<^verbatim>\<open>web/services/maintenance_service.py\<close>, which is not among the sources. The
  record has the four attributes that \<^verbatim>\<open>get_status_dict\<close> reads (the spec's
  message, success, affected count and error list); an instance is truthy.
\<close>

record ActionResult =
  ar_success :: bool
  ar_message :: string
  ar_affected_count :: int
  ar_errors :: "string list"

record MaintenanceResult =
  state :: MaintenanceState
  action_name :: string
  action_display :: string
  started_at :: "timestamp option"
  completed_at :: "timestamp option"
  duration_seconds :: int
  action_result :: "ActionResult option"
  error_message :: "string option"
  file_count :: int

subsection \<open>The runner\<close>

text \<open>
  The completion callback \<^verbatim>\<open>on_complete\<close> is a nullary callable. It acts on the
  world outside the slot, a state of type \<^typ>\<open>'e\<close>, and either returns or raises.
  Its first argument is what it can observe of the slot when it is called: the slot's
  state at that moment.
\<close>

type_synonym 'e callback = "MaintenanceState \<Rightarrow> 'e \<Rightarrow> 'e \<times> py_exc option"

text \<open>
  The \<^verbatim>\<open>threading.Thread\<close> created by \<^verbatim>\<open>start_action\<close>: the arguments it will
  pass to \<^verbatim>\<open>_run_action\<close> that the model needs, and whether the thread has yet to
  run to its end.
\<close>

record 'e worker_thread =
  t_action_name :: string
  t_on_complete :: "'e callback option"
  t_alive :: bool

record 'e MaintenanceRunner =
  r_state :: MaintenanceState
  r_result :: "MaintenanceResult option"
  r_thread :: "'e worker_thread option"
  r_stop_requested :: bool

definition init_runner :: "'e MaintenanceRunner" where
  "init_runner = \<lparr>r_state = IDLE, r_result = None, r_thread = None, r_stop_requested = False\<rparr>"

definition is_running :: "'e MaintenanceRunner \<Rightarrow> bool" where
  "is_running r = (r_state r = RUNNING)"

text \<open>
  \<^verbatim>\<open>start_action\<close>. The first argument is what
  \<^verbatim>\<open>get_operation_runner().is_running\<close> returns (the operation runner is not among
  the sources); \<open>now\<close> is \<^verbatim>\<open>datetime.now()\<close>. The result is the returned boolean,
  the runner afterwards and the log records written. The service method and its
  arguments go to the thread without touching the slot; what the method does enters the
  model as the argument \<open>work\<close> of \<^verbatim>\<open>_run_action\<close>, and the \<^verbatim>\<open>stop_check\<close> it is
  given reads the slot's stop flag.
\<close>

definition start_action ::
  "bool \<Rightarrow> string \<Rightarrow> int \<Rightarrow> 'e callback option \<Rightarrow> timestamp \<Rightarrow> 'e MaintenanceRunner
   \<Rightarrow> bool \<times> 'e MaintenanceRunner \<times> log_record list" where
  "start_action operation_running aname fcount on_complete now r =
     (if operation_running then
        (False, r, [(LogInfo, ''Maintenance action blocked - PlexCache operation in progress'')])
      else if r_state r = RUNNING then
        (False, r, [(LogInfo, ''Maintenance action blocked - another maintenance action in progress'')])
      else
        (let display = format_count (action_display_template aname) (str_int fcount);
             r1 = r\<lparr>r_state := RUNNING, r_stop_requested := False\<rparr>;
             r2 = r1\<lparr>r_result := Some
                    \<lparr>state = RUNNING, action_name = aname, action_display = display,
                     started_at = Some now, completed_at = None, duration_seconds = 0,
                     action_result = None, error_message = None, file_count = fcount\<rparr>\<rparr>;
             r3 = r2\<lparr>r_thread := Some
                    \<lparr>t_action_name = aname, t_on_complete = on_complete, t_alive = True\<rparr>\<rparr>
         in (True, r3,
             [(LogInfo, ''Maintenance action started: '' @ aname @ '' ('' @ str_int fcount @ '' files)'')])))"

definition stop_action :: "'e MaintenanceRunner \<Rightarrow> bool \<times> 'e MaintenanceRunner \<times> log_record list" where
  "stop_action r =
     (if r_state r \<noteq> RUNNING then (False, r, [])
      else (True, r\<lparr>r_stop_requested := True\<rparr>, [(LogInfo, ''Maintenance action stop requested'')]))"

definition dismiss :: "'e MaintenanceRunner \<Rightarrow> 'e MaintenanceRunner" where
  "dismiss r =
     (if r_state r = COMPLETED \<or> r_state r = FAILED then
        (let r1 = r\<lparr>r_state := IDLE\<rparr>
         in case r_result r1 of
              Some res \<Rightarrow> r1\<lparr>r_result := Some (res\<lparr>state := IDLE\<rparr>)\<rparr>
            | None \<Rightarrow> r1)
      else r)"

text \<open>
  \<^verbatim>\<open>_run_action\<close>, the body of the worker thread, in three parts.

  The \<^verbatim>\<open>try\<close>/\<^verbatim>\<open>except Exception\<close> part: \<open>work\<close> is what the call
  \<^verbatim>\<open>service_method(*method_args, **method_kwargs)\<close> did. The result is the local
  \<^verbatim>\<open>action_result\<close>, the local \<^verbatim>\<open>error_message\<close>, the log records and the exception
  still in flight when the \<^verbatim>\<open>finally\<close> block is entered.
\<close>

definition run_try ::
  "string \<Rightarrow> ActionResult option outcome \<Rightarrow> bool
   \<Rightarrow> ActionResult option \<times> string option \<times> log_record list \<times> py_exc option" where
  "run_try aname work stop_req =
     (case work of
        Returned v \<Rightarrow>
          (v, None,
           [(LogInfo, (if stop_req then ''Maintenance action stopped by user: ''
                       else ''Maintenance action completed: '') @ aname)],
           None)
      | Raised (PyException m) \<Rightarrow>
          (None, Some m, [(LogException, ''Maintenance action failed: '' @ aname)], None)
      | Raised (PyBaseException m) \<Rightarrow>
          (None, None, [], Some (PyBaseException m)))"

text \<open>Truth value of an \<^verbatim>\<open>Optional[str]\<close>, as \<^verbatim>\<open>if error_message:\<close> tests it.\<close>

fun truthy_opt_str :: "string option \<Rightarrow> bool" where
  "truthy_opt_str None = False"
| "truthy_opt_str (Some m) = (m \<noteq> [])"

text \<open>
  The block under \<^verbatim>\<open>with self._lock\<close> in \<^verbatim>\<open>finally\<close>. With no stored result the
  first assignment raises \<^verbatim>\<open>AttributeError\<close> and nothing is written.
\<close>

definition run_locked ::
  "ActionResult option \<Rightarrow> string option \<Rightarrow> int \<Rightarrow> timestamp \<Rightarrow> 'e MaintenanceRunner
   \<Rightarrow> py_exc + 'e MaintenanceRunner" where
  "run_locked ares emsg duration now r =
     (case r_result r of
        None \<Rightarrow> Inl (PyException ''AttributeError: NoneType object has no attribute completed_at'')
      | Some res \<Rightarrow>
          (let res1 = res\<lparr>completed_at := Some now, duration_seconds := duration,
                          action_result := ares\<rparr>
           in if truthy_opt_str emsg then
                Inr (r\<lparr>r_result := Some (res1\<lparr>state := FAILED, error_message := emsg\<rparr>),
                       r_state := FAILED\<rparr>)
              else
                Inr (r\<lparr>r_result := Some (res1\<lparr>state := COMPLETED\<rparr>),
                       r_state := COMPLETED\<rparr>)))"

text \<open>
  \<^verbatim>\<open>if on_complete: try: on_complete() except Exception as e: logger.error(...)\<close>.
  \<open>pending\<close> is the exception in flight, which leaves the \<^verbatim>\<open>finally\<close> block
  unless the callback replaces it.
\<close>

definition run_on_complete ::
  "'e callback option \<Rightarrow> MaintenanceState \<Rightarrow> 'e \<Rightarrow> py_exc option
   \<Rightarrow> 'e \<times> log_record list \<times> py_exc option" where
  "run_on_complete on_complete st env pending =
     (case on_complete of
        None \<Rightarrow> (env, [], pending)
      | Some cb \<Rightarrow>
          (case cb st env of
             (env', None) \<Rightarrow> (env', [], pending)
           | (env', Some (PyException m)) \<Rightarrow>
               (env', [(LogError, ''on_complete callback failed: '' @ m)], pending)
           | (env', Some (PyBaseException m)) \<Rightarrow> (env', [], Some (PyBaseException m))))"

text \<open>
  \<open>start_time\<close> and \<open>end_time\<close> are the two readings of \<^verbatim>\<open>time.time()\<close>, \<open>now\<close>
  is \<^verbatim>\<open>datetime.now()\<close>. The result is the runner, the outside world, the log and
  the exception that leaves \<^verbatim>\<open>_run_action\<close>, if any.
\<close>

definition run_action ::
  "string \<Rightarrow> ActionResult option outcome \<Rightarrow> 'e callback option
   \<Rightarrow> timestamp \<Rightarrow> timestamp \<Rightarrow> timestamp \<Rightarrow> 'e MaintenanceRunner \<Rightarrow> 'e
   \<Rightarrow> 'e MaintenanceRunner \<times> 'e \<times> log_record list \<times> py_exc option" where
  "run_action aname work on_complete start_time end_time now r env =
     (case run_try aname work (r_stop_requested r) of
        (ares, emsg, log1, pending) \<Rightarrow>
          (case run_locked ares emsg (end_time - start_time) now r of
             Inl e \<Rightarrow> (r, env, log1, Some e)
           | Inr r1 \<Rightarrow>
               (case run_on_complete on_complete (r_state r1) env pending of
                  (env', log2, exc) \<Rightarrow> (r1, env', log1 @ log2, exc))))"

text \<open>
  The thread started by \<^verbatim>\<open>start_action\<close> runs \<^verbatim>\<open>_run_action\<close> with the arguments
  it was created with, and is then no longer alive.
\<close>

definition thread_run ::
  "'e worker_thread \<Rightarrow> ActionResult option outcome \<Rightarrow> timestamp \<Rightarrow> timestamp \<Rightarrow> timestamp
   \<Rightarrow> 'e MaintenanceRunner \<Rightarrow> 'e
   \<Rightarrow> 'e MaintenanceRunner \<times> 'e \<times> log_record list \<times> py_exc option" where
  "thread_run t work start_time end_time now r env =
     (case run_action (t_action_name t) work (t_on_complete t) start_time end_time now r env of
        (r', rest) \<Rightarrow> (r'\<lparr>r_thread := Some (t\<lparr>t_alive := False\<rparr>)\<rparr>, rest))"

subsection \<open>The status snapshot\<close>

text \<open>
  The values of the status dictionary. \<open>VIso\<close> is the \<^verbatim>\<open>isoformat()\<close> text of a
  time stamp, \<open>VDuration\<close> the stored duration (its rounding to one decimal is
  floating-point arithmetic and is left out). The dictionary is the list of its items
  in insertion order, read with \<^const>\<open>map_of\<close>.
\<close>

datatype py_value =
  VNone | VBool bool | VInt int | VStr string | VStrList "string list"
  | VIso timestamp | VDuration int

fun opt_iso :: "timestamp option \<Rightarrow> py_value" where
  "opt_iso None = VNone"
| "opt_iso (Some t) = VIso t"

fun opt_str :: "string option \<Rightarrow> py_value" where
  "opt_str None = VNone"
| "opt_str (Some m) = VStr m"

definition get_status_dict :: "'e MaintenanceRunner \<Rightarrow> (string \<times> py_value) list" where
  "get_status_dict r =
     (case r_result r of
        None \<Rightarrow> [(''state'', VStr (state_value IDLE)), (''is_running'', VBool False)]
      | Some result \<Rightarrow>
          if r_state r = IDLE then
            [(''state'', VStr (state_value IDLE)), (''is_running'', VBool False)]
          else
            [(''state'', VStr (state_value (state result))),
             (''is_running'', VBool (state result = RUNNING)),
             (''action_name'', VStr (action_name result)),
             (''action_display'', VStr (action_display result)),
             (''started_at'', opt_iso (started_at result)),
             (''completed_at'', opt_iso (completed_at result)),
             (''duration_seconds'', VDuration (duration_seconds result)),
             (''file_count'', VInt (file_count result)),
             (''error_message'', opt_str (error_message result))]
            @ (case action_result result of
                 None \<Rightarrow> []
               | Some ar \<Rightarrow>
                   [(''result_message'', VStr (ar_message ar)),
                    (''result_success'', VBool (ar_success ar)),
                    (''affected_count'', VInt (ar_affected_count ar)),
                    (''errors'', VStrList (ar_errors ar))]))"

subsection \<open>Reachable states of a slot\<close>

text \<open>
  A slot starts as \<^const>\<open>init_runner\<close>; callers invoke \<^verbatim>\<open>start_action\<close>,
  \<^verbatim>\<open>stop_action\<close> and \<^verbatim>\<open>dismiss\<close> with any arguments, and a live worker thread
  runs to its end with any outcome of the service method.
\<close>

inductive reachable :: "'e MaintenanceRunner \<Rightarrow> bool" where
  reach_init: "reachable init_runner"
| reach_start:
    "reachable r \<Longrightarrow> start_action oprun aname fcount cb now r = (b, r', lg) \<Longrightarrow> reachable r'"
| reach_stop: "reachable r \<Longrightarrow> stop_action r = (b, r', lg) \<Longrightarrow> reachable r'"
| reach_dismiss: "reachable r \<Longrightarrow> reachable (dismiss r)"
| reach_finish:
    "reachable r \<Longrightarrow> r_thread r = Some t \<Longrightarrow> t_alive t
     \<Longrightarrow> thread_run t work st et now r env = (r', env', lg, exc) \<Longrightarrow> reachable r'"

subsection \<open>Invariants of a slot\<close>

text \<open>Whenever a result record is stored, its state field is the runner's state.\<close>

definition result_agrees :: "'e MaintenanceRunner \<Rightarrow> bool" where
  "result_agrees r = (case r_result r of None \<Rightarrow> True | Some res \<Rightarrow> state res = r_state r)"

text \<open>
  The full invariant of the reachable states: the result agrees with the state, a slot
  that is not idle has a result, and a live worker thread means the slot is running.
\<close>

definition slot_inv :: "'e MaintenanceRunner \<Rightarrow> bool" where
  "slot_inv r =
     (result_agrees r
      \<and> (r_state r \<noteq> IDLE \<longrightarrow> r_result r \<noteq> None)
      \<and> (case r_thread r of None \<Rightarrow> True | Some t \<Rightarrow> t_alive t \<longrightarrow> r_state r = RUNNING))"

text \<open>The dictionary \<^verbatim>\<open>get_status_dict\<close> returns for an idle slot.\<close>

definition idle_status :: "(string \<times> py_value) list" where
  "idle_status = [(''state'', VStr ''idle''), (''is_running'', VBool False)]"

text \<open>
  Two sample slots for the closed theorems below: \<open>running_slot\<close> after an accepted
  \<^verbatim>\<open>start_action("sync-to-array", ..., file_count=2)\<close> with a callback that counts
  its calls and then raises, and \<open>failed_slot\<close> after its worker ended with the service
  method raising \<^verbatim>\<open>RuntimeError("boom")\<close>.
\<close>

definition counting_callback :: "nat callback" where
  "counting_callback st n = (Suc n, Some (PyException ''cache invalidation failed''))"

definition running_slot :: "nat MaintenanceRunner" where
  "running_slot =
     fst (snd (start_action False ''sync-to-array'' 2 (Some counting_callback) 100 init_runner))"

definition sample_thread :: "nat worker_thread" where
  "sample_thread =
     \<lparr>t_action_name = ''sync-to-array'', t_on_complete = Some counting_callback, t_alive = True\<rparr>"

definition failed_slot :: "nat MaintenanceRunner" where
  "failed_slot =
     fst (thread_run sample_thread (Raised (PyException ''boom'')) 1000 1500 160 running_slot 0)"

section \<open>system\_utils.py: SingleInstanceLock\<close>

subsection \<open>The operating system, as far as the lock uses it\<close>

text \<open>
  An exclusive \<^verbatim>\<open>flock\<close> on a file is held through one open file description: by a
  descriptor of this process, or by another process.
\<close>

datatype lock_holder = OtherProcess | ThisProcess nat

text \<open>
  The state of the operating system: the files by path, the open descriptors of this
  process and the path each was opened on, the next free descriptor, the holder of the
  exclusive lock of each path, the process id and the handlers registered with
  \<^verbatim>\<open>atexit\<close> (the lock file of the handle whose \<^verbatim>\<open>release\<close> was registered). Three
  fields say which calls fail with \<^verbatim>\<open>OSError\<close>: opening a path for writing, writing
  to a descriptor, and removing a path.
\<close>

record os_state =
  os_files :: "string \<rightharpoonup> string"
  os_fds :: "nat \<rightharpoonup> string"
  os_next_fd :: nat
  os_flock :: "string \<rightharpoonup> lock_holder"
  os_pid :: nat
  os_atexit :: "string list"
  os_open_fails :: "string \<Rightarrow> bool"
  os_write_fails :: bool
  os_remove_fails :: "string \<Rightarrow> bool"

datatype os_error = OSError string

text \<open>\<^verbatim>\<open>open(path, 'w')\<close>: a new descriptor on the truncated file.\<close>

definition py_open_w :: "os_state \<Rightarrow> string \<Rightarrow> os_error + nat \<times> os_state" where
  "py_open_w os path =
     (if os_open_fails os path then Inl (OSError ''cannot open file for writing'')
      else Inr (os_next_fd os,
                os\<lparr>os_files := (os_files os)(path \<mapsto> []),
                   os_fds := (os_fds os)(os_next_fd os \<mapsto> path),
                   os_next_fd := Suc (os_next_fd os)\<rparr>))"

text \<open>
  \<^verbatim>\<open>fcntl.flock(fd, LOCK_EX | LOCK_NB)\<close>: fails when the lock is held through any other
  open file description, of another process or of this one.
\<close>

definition flock_ex_nb :: "os_state \<Rightarrow> nat \<Rightarrow> os_error + os_state" where
  "flock_ex_nb os fd =
     (case os_fds os fd of
        None \<Rightarrow> Inl (OSError ''bad file descriptor'')
      | Some path \<Rightarrow>
          (case os_flock os path of
             None \<Rightarrow> Inr (os\<lparr>os_flock := (os_flock os)(path \<mapsto> ThisProcess fd)\<rparr>)
           | Some holder \<Rightarrow>
               if holder = ThisProcess fd then Inr os
               else Inl (OSError ''resource temporarily unavailable'')))"

text \<open>\<^verbatim>\<open>fcntl.flock(fd, LOCK_UN)\<close>.\<close>

definition flock_un :: "os_state \<Rightarrow> nat \<Rightarrow> os_error + os_state" where
  "flock_un os fd =
     (case os_fds os fd of
        None \<Rightarrow> Inl (OSError ''bad file descriptor'')
      | Some path \<Rightarrow>
          if os_flock os path = Some (ThisProcess fd)
          then Inr (os\<lparr>os_flock := (os_flock os)(path := None)\<rparr>)
          else Inr os)"

text \<open>\<^verbatim>\<open>f.write(text); f.flush()\<close>.\<close>

definition write_flush :: "os_state \<Rightarrow> nat \<Rightarrow> string \<Rightarrow> os_error + os_state" where
  "write_flush os fd txt =
     (if os_write_fails os then Inl (OSError ''no space left on device'')
      else case os_fds os fd of
             None \<Rightarrow> Inl (OSError ''bad file descriptor'')
           | Some path \<Rightarrow>
               (case os_files os path of
                  None \<Rightarrow> Inr os
                | Some old \<Rightarrow> Inr (os\<lparr>os_files := (os_files os)(path \<mapsto> old @ txt)\<rparr>)))"

text \<open>\<^verbatim>\<open>f.close()\<close>: the descriptor goes, and with it a lock held through it.\<close>

definition close_fd :: "os_state \<Rightarrow> nat \<Rightarrow> os_state" where
  "close_fd os fd =
     (case os_fds os fd of
        None \<Rightarrow> os
      | Some path \<Rightarrow>
          (if os_flock os path = Some (ThisProcess fd)
           then os\<lparr>os_fds := (os_fds os)(fd := None), os_flock := (os_flock os)(path := None)\<rparr>
           else os\<lparr>os_fds := (os_fds os)(fd := None)\<rparr>))"

text \<open>\<^verbatim>\<open>os.remove(path)\<close>.\<close>

definition py_remove :: "os_state \<Rightarrow> string \<Rightarrow> os_error + os_state" where
  "py_remove os path =
     (if os_remove_fails os path then Inl (OSError ''permission denied'')
      else if os_files os path = None then Inl (OSError ''no such file or directory'')
      else Inr (os\<lparr>os_files := (os_files os)(path := None)\<rparr>))"

subsection \<open>The lock handle\<close>

record SingleInstanceLock =
  lock_file :: string
  lock_fd :: "nat option"
  locked :: bool

definition new_lock :: "string \<Rightarrow> SingleInstanceLock" where
  "new_lock path = \<lparr>lock_file = path, lock_fd = None, locked = False\<rparr>"

text \<open>
  The assignment \<^verbatim>\<open>self.lock_fd = open(self.lock_file, 'w')\<close>, once \<^verbatim>\<open>open\<close> has
  returned the descriptor \<open>fd\<close>. The file object that \<open>lock_fd\<close> held before, if
  any, loses its only reference; CPython closes it at once, and a lock held through it
  is released.
\<close>

definition rebind_lock_fd ::
  "SingleInstanceLock \<Rightarrow> nat \<Rightarrow> os_state \<Rightarrow> SingleInstanceLock \<times> os_state" where
  "rebind_lock_fd h fd os =
     (h\<lparr>lock_fd := Some fd\<rparr>,
      case lock_fd h of
        None \<Rightarrow> os
      | Some previous \<Rightarrow> close_fd os previous)"

text \<open>
  The handler \<^verbatim>\<open>except (IOError, OSError)\<close> of \<^verbatim>\<open>acquire\<close>: every exception of the
  \<^verbatim>\<open>try\<close> block is an \<^verbatim>\<open>OSError\<close> and ends here. \<open>unflushed\<close> says that the
  text written to the file is still in its buffer, which is so when \<^verbatim>\<open>flush\<close> was
  what failed: \<^verbatim>\<open>close()\<close> then flushes again, and where that fails it closes the
  descriptor and raises, so that the \<^verbatim>\<open>OSError\<close> leaves \<^verbatim>\<open>acquire\<close> before
  \<open>lock_fd\<close> is cleared. \<open>Inl\<close> is an exception that leaves the method,
  \<open>Inr\<close> the value it returns.
\<close>

definition acquire_failed ::
  "SingleInstanceLock \<Rightarrow> os_state \<Rightarrow> bool
   \<Rightarrow> (os_error + bool) \<times> SingleInstanceLock \<times> os_state" where
  "acquire_failed h os unflushed =
     (case lock_fd h of
        Some fd \<Rightarrow>
          if unflushed \<and> os_write_fails os
          then (Inl (OSError ''no space left on device''), h, close_fd os fd)
          else (Inr False, h\<lparr>lock_fd := None\<rparr>, close_fd os fd)
      | None \<Rightarrow> (Inr False, h, os))"

definition acquire ::
  "SingleInstanceLock \<Rightarrow> os_state \<Rightarrow> (os_error + bool) \<times> SingleInstanceLock \<times> os_state" where
  "acquire h os =
     (case py_open_w os (lock_file h) of
        Inl e \<Rightarrow> acquire_failed h os False
      | Inr (fd, os1) \<Rightarrow>
          (case rebind_lock_fd h fd os1 of
             (h1, os2) \<Rightarrow>
               (case flock_ex_nb os2 fd of
                  Inl e \<Rightarrow> acquire_failed h1 os2 False
                | Inr os3 \<Rightarrow>
                    (case write_flush os3 fd (str_nat (os_pid os3)) of
                       Inl e \<Rightarrow> acquire_failed h1 os3 True
                     | Inr os4 \<Rightarrow>
                         (Inr True, h1\<lparr>locked := True\<rparr>,
                          os4\<lparr>os_atexit := os_atexit os4 @ [lock_file h]\<rparr>)))))"

text \<open>
  \<^verbatim>\<open>release\<close>: the \<^verbatim>\<open>try\<close> block stops at the first failing call, and
  \<^verbatim>\<open>except Exception: pass\<close> keeps what was done up to there.
\<close>

definition release :: "SingleInstanceLock \<Rightarrow> os_state \<Rightarrow> SingleInstanceLock \<times> os_state" where
  "release h os =
     (if \<not> locked h then (h, os)
      else
        (case (case lock_fd h of
                 None \<Rightarrow> Inr (h, os)
               | Some fd \<Rightarrow>
                   (case flock_un os fd of
                      Inl e \<Rightarrow> Inl (h, os)
                    | Inr os1 \<Rightarrow> Inr (h\<lparr>lock_fd := None\<rparr>, close_fd os1 fd))) of
           Inl stopped \<Rightarrow> stopped
         | Inr (h1, os2) \<Rightarrow>
             (if os_files os2 (lock_file h1) \<noteq> None then
                (case py_remove os2 (lock_file h1) of
                   Inl e \<Rightarrow> (h1, os2)
                 | Inr os3 \<Rightarrow> (h1\<lparr>locked := False\<rparr>, os3))
              else (h1\<lparr>locked := False\<rparr>, os2))))"

text \<open>
  The lock of the handle's file cannot be obtained because it is already held: by
  another process, or through a descriptor of this process that is not the handle's own
  (the handle's own is closed by the rebinding in \<^verbatim>\<open>acquire\<close>, which frees a lock held
  through it). The descriptor that \<^verbatim>\<open>open\<close> will return next cannot hold a lock yet.
\<close>

definition lock_held_elsewhere :: "SingleInstanceLock \<Rightarrow> os_state \<Rightarrow> bool" where
  "lock_held_elsewhere h os =
     (case os_flock os (lock_file h) of
        None \<Rightarrow> False
      | Some OtherProcess \<Rightarrow> True
      | Some (ThisProcess fd) \<Rightarrow> lock_fd h \<noteq> Some fd \<and> fd \<noteq> os_next_fd os)"

text \<open>
  Sample states for the closed theorems: an operating system where another process
  holds the lock of \<^verbatim>\<open>/tmp/plexcache.lock\<close>, and one where nobody does but the lock
  file cannot be removed.
\<close>

definition sample_os :: os_state where
  "sample_os =
     \<lparr>os_files = Map.empty, os_fds = Map.empty, os_next_fd = 3,
      os_flock = Map.empty, os_pid = 4242, os_atexit = [],
      os_open_fails = (\<lambda>p. False), os_write_fails = False, os_remove_fails = (\<lambda>p. False)\<rparr>"

definition other_holds_os :: os_state where
  "other_holds_os =
     sample_os\<lparr>os_files := [''/tmp/plexcache.lock'' \<mapsto> ''977''],
               os_flock := [''/tmp/plexcache.lock'' \<mapsto> OtherProcess]\<rparr>"

definition sticky_os :: os_state where
  "sticky_os = sample_os\<lparr>os_remove_fails := (\<lambda>p. True)\<rparr>"

text \<open>
  A handle that acquired the lock and whose \<^verbatim>\<open>release\<close> then could not remove the
  lock file: its descriptor is closed, its flag still set.
\<close>

definition stale_handle :: SingleInstanceLock where
  "stale_handle =
     fst (release (fst (snd (acquire (new_lock ''/tmp/plexcache.lock'') sticky_os)))
                  (snd (snd (acquire (new_lock ''/tmp/plexcache.lock'') sticky_os))))"

text \<open>
  A handle that holds the lock through its own descriptor, and the operating system
  after the call of \<^verbatim>\<open>acquire\<close> that gave it the lock.
\<close>

definition holding_handle :: SingleInstanceLock where
  "holding_handle = fst (snd (acquire (new_lock ''/tmp/plexcache.lock'') sample_os))"

definition holding_os :: os_state where
  "holding_os = snd (snd (acquire (new_lock ''/tmp/plexcache.lock'') sample_os))"

text \<open>An operating system where every write fails for lack of space.\<close>

definition full_disk_os :: os_state where
  "full_disk_os = sample_os\<lparr>os_write_fails := True\<rparr>"

section \<open>system\_utils.py: FileUtils\<close>

subsection \<open>The file system, as far as the copy uses it\<close>

text \<open>What \<^verbatim>\<open>os.stat\<close> reports of a file, and the file's content.\<close>

record file_node =
  st_uid :: nat
  st_gid :: nat
  st_mode :: nat
  st_mtime :: int
  f_content :: string

datatype fs_call =
  CallStat string | CallCopy2 string string | CallChown string nat nat | CallChmod string nat

text \<open>
  The files by path, the process's file-creation mask and effective user and group,
  and the calls the system refuses, each with the text \<^verbatim>\<open>str(e)\<close> of the
  \<^verbatim>\<open>OSError\<close> it raises. A refused call changes nothing.
\<close>

record fs_state =
  fs_nodes :: "string \<rightharpoonup> file_node"
  fs_umask :: nat
  fs_euid :: nat
  fs_egid :: nat
  fs_refused :: "fs_call \<Rightarrow> string option"

definition no_such_file :: "string \<Rightarrow> string" where
  "no_such_file path = ''[Errno 2] No such file or directory: '' @ path"

text \<open>\<^verbatim>\<open>os.stat(path)\<close>.\<close>

definition py_stat :: "fs_state \<Rightarrow> string \<Rightarrow> string + file_node" where
  "py_stat fs path =
     (case fs_refused fs (CallStat path) of
        Some m \<Rightarrow> Inl m
      | None \<Rightarrow>
          (case fs_nodes fs path of
             None \<Rightarrow> Inl (no_such_file path)
           | Some n \<Rightarrow> Inr n))"

text \<open>
  \<^verbatim>\<open>shutil.copy2(src, dest)\<close>: content, mode and time stamps of the source; the
  destination keeps its owner when it exists and is otherwise created for the
  process's user and group.
\<close>

definition py_copy2 :: "fs_state \<Rightarrow> string \<Rightarrow> string \<Rightarrow> string + fs_state" where
  "py_copy2 fs src dest =
     (case fs_refused fs (CallCopy2 src dest) of
        Some m \<Rightarrow> Inl m
      | None \<Rightarrow>
          (case fs_nodes fs src of
             None \<Rightarrow> Inl (no_such_file src)
           | Some n \<Rightarrow>
               if src = dest then Inl (src @ '' and '' @ dest @ '' are the same file'')
               else
                 (let owner = (case fs_nodes fs dest of
                                 None \<Rightarrow> (fs_euid fs, fs_egid fs)
                               | Some d \<Rightarrow> (st_uid d, st_gid d))
                  in Inr (fs\<lparr>fs_nodes := (fs_nodes fs)
                              (dest \<mapsto> n\<lparr>st_uid := fst owner, st_gid := snd owner\<rparr>)\<rparr>))))"

text \<open>\<^verbatim>\<open>os.chown(path, uid, gid)\<close>.\<close>

definition py_chown :: "fs_state \<Rightarrow> string \<Rightarrow> nat \<Rightarrow> nat \<Rightarrow> string + fs_state" where
  "py_chown fs path uid gid =
     (case fs_refused fs (CallChown path uid gid) of
        Some m \<Rightarrow> Inl m
      | None \<Rightarrow>
          (case fs_nodes fs path of
             None \<Rightarrow> Inl (no_such_file path)
           | Some n \<Rightarrow> Inr (fs\<lparr>fs_nodes := (fs_nodes fs)(path \<mapsto> n\<lparr>st_uid := uid, st_gid := gid\<rparr>)\<rparr>)))"

text \<open>\<^verbatim>\<open>os.chmod(path, mode)\<close>.\<close>

definition py_chmod :: "fs_state \<Rightarrow> string \<Rightarrow> nat \<Rightarrow> string + fs_state" where
  "py_chmod fs path mode =
     (case fs_refused fs (CallChmod path mode) of
        Some m \<Rightarrow> Inl m
      | None \<Rightarrow>
          (case fs_nodes fs path of
             None \<Rightarrow> Inl (no_such_file path)
           | Some n \<Rightarrow> Inr (fs\<lparr>fs_nodes := (fs_nodes fs)(path \<mapsto> n\<lparr>st_mode := mode\<rparr>)\<rparr>)))"

text \<open>\<^verbatim>\<open>os.umask(mask)\<close> sets the mask and returns the previous one.\<close>

definition py_umask :: "fs_state \<Rightarrow> nat \<Rightarrow> nat \<times> fs_state" where
  "py_umask fs new_mask = (fs_umask fs, fs\<lparr>fs_umask := new_mask\<rparr>)"

text \<open>\<^verbatim>\<open>oct(n)\<close>.\<close>

function oct_digits :: "nat \<Rightarrow> string" where
  "oct_digits n = (if n < 8 then [digit_char n] else oct_digits (n div 8) @ [digit_char (n mod 8)])"
  by pat_completeness auto
termination
  by (relation "measure (\<lambda>n. n)") auto

definition py_oct :: "nat \<Rightarrow> string" where
  "py_oct n = ''0o'' @ oct_digits n"

subsection \<open>copy\_file\_with\_permissions\<close>

record FileUtils =
  is_linux :: bool
  permissions :: nat

text \<open>\<^verbatim>\<open>RuntimeError(msg)\<close>, a subclass of \<^verbatim>\<open>Exception\<close>.\<close>

definition RuntimeError :: "string \<Rightarrow> py_exc" where
  "RuntimeError msg = PyException msg"

text \<open>
  The \<^verbatim>\<open>try\<close> block. \<open>Inl m\<close> is an exception raised by one of its calls, with
  \<^verbatim>\<open>str(e) = m\<close>; the block stops there. \<open>Inr 0\<close> is \<^verbatim>\<open>return 0\<close>.
\<close>

definition copy_try ::
  "FileUtils \<Rightarrow> string \<Rightarrow> string \<Rightarrow> bool \<Rightarrow> fs_state
   \<Rightarrow> (string + int) \<times> fs_state \<times> log_record list" where
  "copy_try fu src dest verbose fs =
     (if is_linux fu then
        (case py_stat fs src of
           Inl m \<Rightarrow> (Inl m, fs, [])
         | Inr stat_info \<Rightarrow>
             (case py_copy2 fs src dest of
                Inl m \<Rightarrow> (Inl m, fs, [])
              | Inr fs1 \<Rightarrow>
                  (case py_chown fs1 dest (st_uid stat_info) (st_gid stat_info) of
                     Inl m \<Rightarrow> (Inl m, fs1, [])
                   | Inr fs2 \<Rightarrow>
                       (case py_umask fs2 0 of
                          (original_umask, fs3) \<Rightarrow>
                            (case py_chmod fs3 dest (permissions fu) of
                               Inl m \<Rightarrow> (Inl m, fs3, [])
                             | Inr fs4 \<Rightarrow>
                                 (case py_umask fs4 original_umask of
                                    (cleared, fs5) \<Rightarrow>
                                      if verbose then
                                        (case py_stat fs5 dest of
                                           Inl m \<Rightarrow> (Inl m, fs5, [])
                                         | Inr dest_stat \<Rightarrow>
                                             (Inr 0, fs5,
                                              [(LogDebug, ''File copied: '' @ src @ '' -> '' @ dest),
                                               (LogDebug, ''  Preserved ownership: uid=''
                                                    @ str_nat (st_uid dest_stat) @ '', gid=''
                                                    @ str_nat (st_gid dest_stat)),
                                               (LogDebug, ''  Mode: '' @ py_oct (st_mode dest_stat))]))
                                      else
                                        (Inr 0, fs5,
                                         [(LogDebug, ''File copied with permissions preserved: ''
                                              @ dest)])))))))
      else
        (case py_copy2 fs src dest of
           Inl m \<Rightarrow> (Inl m, fs, [])
         | Inr fs1 \<Rightarrow>
             (Inr 0, fs1, [(LogDebug, ''File copied (Windows): '' @ src @ '' -> '' @ dest)])))"

text \<open>
  The whole method: the \<^verbatim>\<open>except\<close> clause catches every \<^verbatim>\<open>Exception\<close>, logs it and
  raises \<^verbatim>\<open>RuntimeError\<close>. \<open>Inl\<close> is the exception that leaves the method.
\<close>

definition copy_file_with_permissions ::
  "FileUtils \<Rightarrow> string \<Rightarrow> string \<Rightarrow> bool \<Rightarrow> fs_state
   \<Rightarrow> (py_exc + int) \<times> fs_state \<times> log_record list" where
  "copy_file_with_permissions fu src dest verbose fs =
     (case copy_try fu src dest verbose fs of
        (Inr v, fs', lg) \<Rightarrow>
          (Inr v, fs', (LogDebug, ''Copying file from '' @ src @ '' to '' @ dest) # lg)
      | (Inl m, fs', lg) \<Rightarrow>
          (Inl (RuntimeError (''Error copying file: '' @ m)), fs',
           (LogDebug, ''Copying file from '' @ src @ '' to '' @ dest) # lg
           @ [(LogError, ''Error copying file from '' @ src @ '' to '' @ dest @ '': '' @ m)]))"

text \<open>
  A sample file system for the closed theorems: one media file on the cache, owned by
  user 99 and group 100, a process running as root, and a system that refuses to change
  the mode of \<^verbatim>\<open>/mnt/user0/tv/b.mkv\<close>.
\<close>

definition sample_fs :: fs_state where
  "sample_fs =
     \<lparr>fs_nodes = [''/mnt/cache/tv/a.mkv'' \<mapsto>
                    \<lparr>st_uid = 99, st_gid = 100, st_mode = 420, st_mtime = 1700000000,
                     f_content = ''media''\<rparr>],
      fs_umask = 18, fs_euid = 0, fs_egid = 0,
      fs_refused = (\<lambda>c. if c = CallChmod ''/mnt/user0/tv/b.mkv'' 511
                          then Some ''[Errno 1] Operation not permitted'' else None)\<rparr>"

definition sample_utils :: FileUtils where
  "sample_utils = \<lparr>is_linux = True, permissions = 511\<rparr>"

section \<open>system\_utils.py: ZFS detection\<close>

subsection \<open>More Python string methods\<close>

text \<open>\<^verbatim>\<open>s.lower()\<close> on ASCII letters; other characters are kept.\<close>

definition lower_char :: "char \<Rightarrow> char" where
  "lower_char c =
     (case map_of (zip ''ABCDEFGHIJKLMNOPQRSTUVWXYZ'' ''abcdefghijklmnopqrstuvwxyz'') c of
        Some l \<Rightarrow> l
      | None \<Rightarrow> c)"

definition py_lower :: "string \<Rightarrow> string" where
  "py_lower s = map lower_char s"

text \<open>\<^verbatim>\<open>sub in s\<close> for strings.\<close>

fun contains :: "string \<Rightarrow> string \<Rightarrow> bool" where
  "contains [] sub = (sub = [])"
| "contains (x # xs) sub = (prefix sub (x # xs) \<or> contains xs sub)"

text \<open>\<^verbatim>\<open>s.rstrip('/')\<close>.\<close>

definition rstrip_slash :: "string \<Rightarrow> string" where
  "rstrip_slash s = rev (dropWhile (\<lambda>c. c = CHR ''/'') (rev s))"

text \<open>
  \<^verbatim>\<open>s.split(sep)\<close> with a one-character separator: the pieces between the separators,
  empty pieces included; the empty string gives one empty piece.
\<close>

fun split_on :: "char \<Rightarrow> string \<Rightarrow> string list" where
  "split_on sep [] = [[]]"
| "split_on sep (x # xs) =
     (if x = sep then [] # split_on sep xs
      else (case split_on sep xs of
              [] \<Rightarrow> [[x]]
            | w # ws \<Rightarrow> (x # w) # ws))"

text \<open>
  \<^verbatim>\<open>s.split()\<close>: the maximal runs of non-whitespace characters. The whitespace
  characters are the ASCII ones: tab, line feed, vertical tab, form feed, carriage
  return, the separators 0x1C to 0x1F, and the space. The strings of this model are
  ASCII text; Python also splits at the white space beyond ASCII (U+0085, U+00A0 and
  the Unicode spaces), so a mount line with such a character is outside the model.
\<close>

definition is_space :: "char \<Rightarrow> bool" where
  "is_space c = (c \<in> set [CHR 0x09, CHR 0x0A, CHR 0x0B, CHR 0x0C, CHR 0x0D,
                           CHR 0x1C, CHR 0x1D, CHR 0x1E, CHR 0x1F, CHR '' ''])"

fun split_ws_acc :: "string \<Rightarrow> string \<Rightarrow> string list" where
  "split_ws_acc cur [] = (if cur = [] then [] else [rev cur])"
| "split_ws_acc cur (x # xs) =
     (if is_space x then (if cur = [] then split_ws_acc [] xs else rev cur # split_ws_acc [] xs)
      else split_ws_acc (x # cur) xs)"

definition split_ws :: "string \<Rightarrow> string list" where
  "split_ws s = split_ws_acc [] s"

subsection \<open>The two probes\<close>

text \<open>
  What \<^verbatim>\<open>subprocess.run(['df', '-T', path], capture_output=True, text=True, timeout=5)\<close>
  did: it completed with a return code and a standard output, or it raised one of the
  three exceptions the source catches (the time-out after 5 seconds among them). An
  output that cannot be decoded as text makes the call raise \<^verbatim>\<open>UnicodeDecodeError\<close>,
  which the source does not catch and which then leaves \<^verbatim>\<open>detect_zfs\<close>; the model
  covers the calls whose output is text.
\<close>

datatype df_result =
  DfCompleted int string | DfTimeoutExpired | DfFileNotFoundError | DfOSError

text \<open>
  The environment of \<^verbatim>\<open>detect_zfs\<close>: the outcome of the \<^verbatim>\<open>df\<close> call for each path,
  and the lines of \<^verbatim>\<open>/proc/mounts\<close>, or \<open>None\<close> when the file cannot be opened.
\<close>

record zfs_env =
  df_run :: "string \<Rightarrow> df_result"
  proc_mounts :: "string list option"

text \<open>The loop over the lines of \<^verbatim>\<open>/proc/mounts\<close>; \<open>True\<close> is its early return.\<close>

fun mounts_loop :: "string \<Rightarrow> string list \<Rightarrow> bool" where
  "mounts_loop share_name [] = False"
| "mounts_loop share_name (line # rest) =
     (let fields = split_ws line in
      if length fields \<ge> 3 then
        (let mountpoint = fields ! 1; fs_type = fields ! 2 in
         if fs_type = ''zfs'' \<and> endswith (rstrip_slash mountpoint) (''/'' @ share_name)
         then True
         else mounts_loop share_name rest)
      else mounts_loop share_name rest)"

definition check_zfs_mount_for_share :: "zfs_env \<Rightarrow> string \<Rightarrow> bool" where
  "check_zfs_mount_for_share env share_name =
     (case proc_mounts env of
        None \<Rightarrow> False
      | Some lines \<Rightarrow> mounts_loop share_name lines)"

text \<open>The \<^verbatim>\<open>try\<close> block of \<^verbatim>\<open>detect_zfs\<close>: \<open>True\<close> is its \<^verbatim>\<open>return True\<close>.\<close>

definition df_says_zfs :: "df_result \<Rightarrow> bool" where
  "df_says_zfs res =
     (case res of
        DfCompleted returncode stdout \<Rightarrow> returncode = 0 \<and> contains (py_lower stdout) ''zfs''
      | DfTimeoutExpired \<Rightarrow> False
      | DfFileNotFoundError \<Rightarrow> False
      | DfOSError \<Rightarrow> False)"

definition detect_zfs :: "zfs_env \<Rightarrow> string \<Rightarrow> bool" where
  "detect_zfs env path =
     (if df_says_zfs (df_run env path) then True
      else if startswith path ''/mnt/user/'' then
        (let parts = split_on (CHR ''/'') (rstrip_slash path) in
         if length parts \<ge> 4 then check_zfs_mount_for_share env (parts ! 3)
         else False)
      else False)"

text \<open>
  The share name the fallback looks for, \<^verbatim>\<open>parts[3]\<close>, when \<^verbatim>\<open>len(parts) >= 4\<close>.
\<close>

definition share_name_of :: "string \<Rightarrow> string option" where
  "share_name_of path =
     (let parts = split_on (CHR ''/'') (rstrip_slash path) in
      if length parts \<ge> 4 then Some (parts ! 3) else None)"

text \<open>The test the loop applies to one line of the mount table.\<close>

definition zfs_mount_line :: "string \<Rightarrow> string \<Rightarrow> bool" where
  "zfs_mount_line share_name line =
     (let fields = split_ws line in
      length fields \<ge> 3 \<and> fields ! 2 = ''zfs''
      \<and> endswith (rstrip_slash (fields ! 1)) (''/'' @ share_name))"

subsection \<open>The spec's reading of the primary check\<close>

text \<open>
  The spec has the primary check "query the mounted filesystem type for the exact path;
  if it reports a ZFS type, return true". The type \<^verbatim>\<open>df -T\<close> reports is the second
  column of the row that follows the header line.
\<close>

definition spec_df_fs_type :: "string \<Rightarrow> string option" where
  "spec_df_fs_type stdout =
     (case split_on (CHR 0x0A) stdout of
        header # row # others \<Rightarrow>
          (case split_ws row of
             device # fs_type # columns \<Rightarrow> Some fs_type
           | _ \<Rightarrow> None)
      | _ \<Rightarrow> None)"

definition spec_probe_reports_zfs :: "df_result \<Rightarrow> bool" where
  "spec_probe_reports_zfs res =
     (case res of
        DfCompleted returncode stdout \<Rightarrow>
          returncode = 0 \<and> map_option py_lower (spec_df_fs_type stdout) = Some ''zfs''
      | _ \<Rightarrow> False)"

text \<open>
  A sample environment: an ext4 disk mounted at \<^verbatim>\<open>/mnt/disks/zfs_old\<close>, and a mount
  table without any ZFS entry.
\<close>

definition ext4_df_output :: string where
  "ext4_df_output =
     ''Filesystem     Type 1K-blocks    Used Available Use% Mounted on'' @ [CHR 0x0A]
     @ ''/dev/sdb1      ext4 960302096 5242880 906205552   1% /mnt/disks/zfs_old'' @ [CHR 0x0A]"

definition ext4_env :: zfs_env where
  "ext4_env =
     \<lparr>df_run = (\<lambda>p. DfCompleted 0 ext4_df_output),
      proc_mounts = Some [''/dev/sdb1 /mnt/disks/zfs_old ext4 rw,relatime 0 0'' @ [CHR 0x0A]]\<rparr>"

text \<open>
  A second sample environment: \<^verbatim>\<open>df\<close> cannot be run, and the mount table has the ZFS
  dataset of the source's docstring.
\<close>

definition plex_env :: zfs_env where
  "plex_env =
     \<lparr>df_run = (\<lambda>p. DfOSError),
      proc_mounts = Some
        [''shfs /mnt/user fuse.shfs rw,nosuid,nodev,noatime 0 0'' @ [CHR 0x0A],
         ''plex/plex_media /mnt/plex/plex_media zfs rw,xattr,posixacl 0 0'' @ [CHR 0x0A]]\<rparr>"

section \<open>Verified properties\<close>

subsection \<open>Path resolution\<close>

lemma zfs_prefix_loop_iff:
  "zfs_prefix_loop ps p = (\<exists>pre \<in> set ps. startswith p pre)"
  by (induction ps) auto

lemma startswith_append: "startswith (r @ rest) r"
  by (simp add: startswith_def)

text \<open>
  Claim C1. \<^verbatim>\<open>get_array_direct_path\<close> is exactly this case analysis: a path that
  does not start with \<^verbatim>\<open>/mnt/user/\<close> is returned unchanged; a path under
  \<^verbatim>\<open>/mnt/user/\<close> that starts with some registered ZFS prefix is returned unchanged;
  every other path \<^verbatim>\<open>/mnt/user/\<close> + rest becomes \<^verbatim>\<open>/mnt/user0/\<close> + rest, with
  the remainder untouched.
\<close>

theorem get_array_direct_path_cases:
  "(\<not> startswith p ''/mnt/user/'' \<longrightarrow> get_array_direct_path g p = p)
   \<and> (startswith p ''/mnt/user/'' \<and> (\<exists>pre \<in> set (zfs_user_prefixes g). startswith p pre)
        \<longrightarrow> get_array_direct_path g p = p)
   \<and> (\<forall>rest. p = ''/mnt/user/'' @ rest \<and> (\<forall>pre \<in> set (zfs_user_prefixes g). \<not> startswith p pre)
        \<longrightarrow> get_array_direct_path g p = ''/mnt/user0/'' @ rest)"
proof (intro conjI impI allI)
  assume "\<not> startswith p ''/mnt/user/''"
  then show "get_array_direct_path g p = p"
    by (simp add: get_array_direct_path_def)
next
  assume "startswith p ''/mnt/user/'' \<and> (\<exists>pre \<in> set (zfs_user_prefixes g). startswith p pre)"
  then show "get_array_direct_path g p = p"
    by (simp add: get_array_direct_path_def zfs_prefix_loop_iff)
next
  fix rest
  assume a: "p = ''/mnt/user/'' @ rest \<and> (\<forall>pre \<in> set (zfs_user_prefixes g). \<not> startswith p pre)"
  then have "startswith p ''/mnt/user/''"
    using startswith_append [of "''/mnt/user/''" rest] by simp
  moreover from a have "\<not> zfs_prefix_loop (zfs_user_prefixes g) p"
    unfolding zfs_prefix_loop_iff by blast
  moreover from a have "drop (length ''/mnt/user/'') p = rest"
    by simp
  ultimately show "get_array_direct_path g p = ''/mnt/user0/'' @ rest"
    by (simp add: get_array_direct_path_def)
qed

theorem get_array_direct_path_cases_witness:
  "get_array_direct_path (set_zfs_prefixes [''/mnt/user/tank''] initial_globals) ''/mnt/cache/tv/a.mkv''
     = ''/mnt/cache/tv/a.mkv''
   \<and> get_array_direct_path (set_zfs_prefixes [''/mnt/user/tank''] initial_globals) ''/mnt/user/tank/a.mkv''
     = ''/mnt/user/tank/a.mkv''
   \<and> get_array_direct_path (set_zfs_prefixes [''/mnt/user/tank''] initial_globals) ''/mnt/user/tv/a.mkv''
     = ''/mnt/user0/tv/a.mkv''"
proof -
  let ?g = "set_zfs_prefixes [''/mnt/user/tank''] initial_globals"
  have z: "zfs_user_prefixes ?g = [''/mnt/user/tank'']"
    by (simp add: set_zfs_prefixes_def initial_globals_def)
  have 1: "\<not> startswith ''/mnt/cache/tv/a.mkv'' ''/mnt/user/''"
    by (simp add: startswith_def)
  have 2: "startswith ''/mnt/user/tank/a.mkv'' ''/mnt/user/''
           \<and> (\<exists>pre \<in> set (zfs_user_prefixes ?g). startswith ''/mnt/user/tank/a.mkv'' pre)"
    by (simp add: z startswith_def)
  have 3: "''/mnt/user/tv/a.mkv'' = ''/mnt/user/'' @ ''tv/a.mkv''
           \<and> (\<forall>pre \<in> set (zfs_user_prefixes ?g). \<not> startswith ''/mnt/user/tv/a.mkv'' pre)"
    by (simp add: z startswith_def)
  from 1 get_array_direct_path_cases [of "''/mnt/cache/tv/a.mkv''" ?g]
  have a: "get_array_direct_path ?g ''/mnt/cache/tv/a.mkv'' = ''/mnt/cache/tv/a.mkv''"
    by blast
  from 2 get_array_direct_path_cases [of "''/mnt/user/tank/a.mkv''" ?g]
  have b: "get_array_direct_path ?g ''/mnt/user/tank/a.mkv'' = ''/mnt/user/tank/a.mkv''"
    by blast
  from 3 get_array_direct_path_cases [of "''/mnt/user/tv/a.mkv''" ?g]
  have c: "get_array_direct_path ?g ''/mnt/user/tv/a.mkv'' = ''/mnt/user0/'' @ ''tv/a.mkv''"
    by blast
  from a b c show ?thesis by simp
qed

subsection \<open>The maintenance runner\<close>

lemma run_locked_Inr:
  "r_result r = Some res \<Longrightarrow> \<exists>r1. run_locked ares emsg d now r = Inr r1
     \<and> (r_state r1 = COMPLETED \<or> r_state r1 = FAILED) \<and> result_agrees r1 \<and> r_result r1 \<noteq> None
     \<and> r_thread r1 = r_thread r \<and> r_stop_requested r1 = r_stop_requested r"
  by (auto simp: run_locked_def result_agrees_def Let_def)

lemma run_locked_None:
  "r_result r = None \<Longrightarrow> \<exists>e. run_locked ares emsg d now r = Inl e"
  by (simp add: run_locked_def)

lemma run_action_slot:
  assumes ra: "run_action aname work cb st et now r env = (r', env', lg, exc)"
  shows "(r_result r = None \<longrightarrow> r' = r) \<and>
   (r_result r \<noteq> None \<longrightarrow> (r_state r' = COMPLETED \<or> r_state r' = FAILED) \<and> result_agrees r'
       \<and> r_result r' \<noteq> None \<and> r_thread r' = r_thread r \<and> r_stop_requested r' = r_stop_requested r)"
proof -
  obtain ares emsg log1 pending
    where t: "run_try aname work (r_stop_requested r) = (ares, emsg, log1, pending)"
    by (metis prod_cases4)
  show ?thesis
  proof (cases "r_result r")
    case None
    then obtain e where "run_locked ares emsg (et - st) now r = Inl e"
      using run_locked_None by blast
    with ra t have "r' = r" by (simp add: run_action_def)
    with None show ?thesis by simp
  next
    case (Some res)
    then obtain r1 where l: "run_locked ares emsg (et - st) now r = Inr r1"
      and p: "(r_state r1 = COMPLETED \<or> r_state r1 = FAILED) \<and> result_agrees r1 \<and> r_result r1 \<noteq> None
              \<and> r_thread r1 = r_thread r \<and> r_stop_requested r1 = r_stop_requested r"
      using run_locked_Inr by blast
    obtain env2 log2 exc2
      where oc: "run_on_complete cb (r_state r1) env pending = (env2, log2, exc2)"
      by (metis prod_cases3)
    from ra t l oc have "r' = r1" by (simp add: run_action_def)
    with p Some show ?thesis by simp
  qed
qed

lemma slot_inv_init: "slot_inv init_runner"
  by (simp add: slot_inv_def init_runner_def result_agrees_def)

lemma slot_inv_start: "slot_inv r \<Longrightarrow> start_action oprun aname fcount cb now r = (b, r', lg) \<Longrightarrow> slot_inv r'"
  by (auto simp: start_action_def slot_inv_def result_agrees_def Let_def split: if_splits)

lemma slot_inv_stop: "slot_inv r \<Longrightarrow> stop_action r = (b, r', lg) \<Longrightarrow> slot_inv r'"
  by (auto simp: stop_action_def slot_inv_def result_agrees_def split: if_splits option.splits)

lemma slot_inv_dismiss: "slot_inv r \<Longrightarrow> slot_inv (dismiss r)"
  by (auto simp: dismiss_def slot_inv_def result_agrees_def Let_def split: if_splits option.splits)

lemma slot_inv_finish:
  assumes inv: "slot_inv r" and th: "r_thread r = Some t" and al: "t_alive t"
    and tr: "thread_run t work st et now r env = (r', env', lg, exc)"
  shows "slot_inv r'"
proof -
  obtain r1 env1 lg1 exc1
    where ra: "run_action (t_action_name t) work (t_on_complete t) st et now r env = (r1, env1, lg1, exc1)"
    by (metis prod_cases4)
  with tr have r': "r' = r1\<lparr>r_thread := Some (t\<lparr>t_alive := False\<rparr>)\<rparr>"
    by (simp add: thread_run_def)
  from inv th al have "r_state r = RUNNING" by (simp add: slot_inv_def)
  with inv have "r_result r \<noteq> None" by (simp add: slot_inv_def)
  with run_action_slot [OF ra]
  have "(r_state r1 = COMPLETED \<or> r_state r1 = FAILED) \<and> result_agrees r1 \<and> r_result r1 \<noteq> None"
    by simp
  with r' show ?thesis
    by (auto simp: slot_inv_def result_agrees_def split: option.splits)
qed

lemma reachable_inv: "reachable r \<Longrightarrow> slot_inv r"
  by (induction rule: reachable.induct)
     (auto intro: slot_inv_init slot_inv_start slot_inv_stop slot_inv_dismiss slot_inv_finish)


lemma running_slot_eq:
  "running_slot =
     \<lparr>r_state = RUNNING,
      r_result = Some \<lparr>state = RUNNING, action_name = ''sync-to-array'',
                       action_display = format_count (action_display_template ''sync-to-array'') (str_int 2),
                       started_at = Some 100, completed_at = None, duration_seconds = 0,
                       action_result = None, error_message = None, file_count = 2\<rparr>,
      r_thread = Some sample_thread,
      r_stop_requested = False\<rparr>"
  by (simp add: running_slot_def start_action_def init_runner_def sample_thread_def Let_def)

lemma reachable_running_slot: "reachable running_slot"
proof -
  have "start_action False ''sync-to-array'' 2 (Some counting_callback) 100 init_runner
        = (True, running_slot,
           [(LogInfo, ''Maintenance action started: '' @ ''sync-to-array'' @ '' ('' @ str_int 2 @ '' files)'')])"
    by (simp add: running_slot_def start_action_def init_runner_def Let_def)
  with reach_init show ?thesis by (rule reach_start)
qed

lemma failed_slot_eq:
  "failed_slot =
     \<lparr>r_state = FAILED,
      r_result = Some \<lparr>state = FAILED, action_name = ''sync-to-array'',
                       action_display = format_count (action_display_template ''sync-to-array'') (str_int 2),
                       started_at = Some 100, completed_at = Some 160, duration_seconds = 500,
                       action_result = None, error_message = Some ''boom'', file_count = 2\<rparr>,
      r_thread = Some (sample_thread\<lparr>t_alive := False\<rparr>),
      r_stop_requested = False\<rparr>"
  by (simp add: failed_slot_def thread_run_def run_action_def run_try_def run_locked_def
      run_on_complete_def running_slot_eq sample_thread_def counting_callback_def)

lemma reachable_failed_slot: "reachable failed_slot"
proof -
  have "r_thread running_slot = Some sample_thread" "t_alive sample_thread"
    by (simp_all add: running_slot_eq sample_thread_def)
  moreover have "thread_run sample_thread (Raised (PyException ''boom'')) 1000 1500 160 running_slot 0
     = (failed_slot, snd (thread_run sample_thread (Raised (PyException ''boom'')) 1000 1500 160 running_slot 0))"
    by (simp add: failed_slot_def)
  ultimately show ?thesis
    using reach_finish [OF reachable_running_slot, of sample_thread] by (metis prod_cases3)
qed

text \<open>
  Claim C3. A call to \<^verbatim>\<open>start_action\<close> made while the operation runner is running,
  or while this slot is \<open>RUNNING\<close>, returns \<open>False\<close> and leaves the runner (state,
  stored result, stop flag, thread) exactly as it was.
\<close>

theorem start_action_rejected:
  "oprun \<or> r_state r = RUNNING \<Longrightarrow>
   fst (start_action oprun aname fcount cb now r) = False
   \<and> fst (snd (start_action oprun aname fcount cb now r)) = r"
  by (auto simp: start_action_def)

theorem start_action_rejected_witness:
  "fst (start_action True ''sync-to-array'' 3 None 7 failed_slot) = False
   \<and> fst (snd (start_action True ''sync-to-array'' 3 None 7 failed_slot)) = failed_slot
   \<and> r_state running_slot = RUNNING
   \<and> fst (start_action False ''sync-to-array'' 3 None 7 running_slot) = False
   \<and> fst (snd (start_action False ''sync-to-array'' 3 None 7 running_slot)) = running_slot"
proof -
  have h: "r_state running_slot = RUNNING" by (simp add: running_slot_eq)
  then have h': "False \<or> r_state running_slot = RUNNING" by simp
  have t: "True \<or> r_state failed_slot = RUNNING" by simp
  from h start_action_rejected [OF t, of "''sync-to-array''" 3 None 7]
    start_action_rejected [OF h', of "''sync-to-array''" 3 None 7]
  show ?thesis by simp
qed

text \<open>
  Claim C8. In every reachable state of a slot the status dictionary has the key
  \<^verbatim>\<open>is_running\<close>, and its value is true exactly when the slot's state is
  \<open>RUNNING\<close>, which is also what the property \<^verbatim>\<open>is_running\<close> returns.
\<close>

theorem status_is_running_iff:
  "reachable r \<Longrightarrow>
     map_of (get_status_dict r) ''is_running'' = Some (VBool (r_state r = RUNNING))
     \<and> is_running r = (r_state r = RUNNING)"
  using reachable_inv [of r]
  by (auto simp: get_status_dict_def slot_inv_def result_agrees_def is_running_def
      split: option.splits)

theorem status_is_running_iff_witness:
  "reachable running_slot \<and> r_state running_slot = RUNNING
   \<and> map_of (get_status_dict running_slot) ''is_running'' = Some (VBool True)
   \<and> reachable failed_slot \<and> r_state failed_slot = FAILED
   \<and> map_of (get_status_dict failed_slot) ''is_running'' = Some (VBool False)"
proof -
  have a: "r_state running_slot = RUNNING" by (simp add: running_slot_eq)
  have b: "r_state failed_slot = FAILED" by (simp add: failed_slot_eq)
  from a b status_is_running_iff [OF reachable_running_slot]
    status_is_running_iff [OF reachable_failed_slot]
    reachable_running_slot reachable_failed_slot
  show ?thesis by simp
qed

lemma result_agrees_start:
  "result_agrees r \<Longrightarrow> result_agrees (fst (snd (start_action oprun aname fcount cb now r)))"
  by (auto simp: start_action_def result_agrees_def Let_def split: option.splits)

lemma result_agrees_stop:
  "result_agrees r \<Longrightarrow> result_agrees (fst (snd (stop_action r)))"
  by (auto simp: stop_action_def result_agrees_def split: option.splits)

lemma result_agrees_dismiss:
  "result_agrees r \<Longrightarrow> result_agrees (dismiss r)"
  by (auto simp: dismiss_def result_agrees_def Let_def split: option.splits)

lemma result_agrees_run_action:
  assumes "result_agrees r"
  shows "result_agrees (fst (run_action aname work cb st et now r env))"
proof -
  obtain r' env' lg exc where ra: "run_action aname work cb st et now r env = (r', env', lg, exc)"
    by (metis prod_cases4)
  from run_action_slot [OF ra] assms have "result_agrees r'"
    by (cases "r_result r") auto
  with ra show ?thesis by simp
qed

lemma result_agrees_thread_run:
  assumes "result_agrees r"
  shows "result_agrees (fst (thread_run t work st et now r env))"
proof -
  obtain r' rest where ra: "run_action (t_action_name t) work (t_on_complete t) st et now r env = (r', rest)"
    by (metis surj_pair)
  from result_agrees_run_action [OF assms, of "t_action_name t" work "t_on_complete t" st et now env] ra
  have "result_agrees r'" by simp
  with ra show ?thesis by (auto simp: thread_run_def result_agrees_def split: option.splits)
qed

lemma status_state_reachable:
  "reachable r \<Longrightarrow> map_of (get_status_dict r) ''state'' = Some (VStr (state_value (r_state r)))"
  using reachable_inv [of r]
  by (auto simp: get_status_dict_def slot_inv_def result_agrees_def split: option.splits)

text \<open>
  Claim C10. The invariant "a stored result record carries the runner's own state" is
  preserved by \<^verbatim>\<open>start_action\<close>, \<^verbatim>\<open>stop_action\<close>, \<^verbatim>\<open>dismiss\<close> and the worker's
  completion (\<^verbatim>\<open>_run_action\<close>, alone or as the body of the thread); it holds in every
  reachable state, where the state reported by the status snapshot is therefore the
  slot's state.
\<close>

theorem result_state_invariant:
  "(result_agrees r \<longrightarrow> result_agrees (fst (snd (start_action oprun aname fcount cb now r))))
   \<and> (result_agrees r \<longrightarrow> result_agrees (fst (snd (stop_action r))))
   \<and> (result_agrees r \<longrightarrow> result_agrees (dismiss r))
   \<and> (result_agrees r \<longrightarrow> result_agrees (fst (run_action aname work cb st et now r env)))
   \<and> (result_agrees r \<longrightarrow> result_agrees (fst (thread_run t work st et now r env)))
   \<and> (reachable r \<longrightarrow> result_agrees r
        \<and> map_of (get_status_dict r) ''state'' = Some (VStr (state_value (r_state r))))"
proof (intro conjI impI)
  assume "reachable r"
  then show "result_agrees r"
    using reachable_inv [of r] by (simp add: slot_inv_def)
qed (simp_all add: result_agrees_start result_agrees_stop result_agrees_dismiss
       result_agrees_run_action result_agrees_thread_run status_state_reachable)

theorem result_state_invariant_witness:
  "result_agrees running_slot \<and> reachable running_slot
   \<and> r_result running_slot \<noteq> None
   \<and> result_agrees (fst (snd (start_action False ''sync-to-array'' 3 None 7 running_slot)))
   \<and> result_agrees (fst (snd (stop_action running_slot)))
   \<and> result_agrees (dismiss running_slot)
   \<and> result_agrees (fst (run_action ''sync-to-array'' (Returned None) None 1000 1500 7 running_slot 0))
   \<and> result_agrees (fst (thread_run sample_thread (Returned None) 1000 1500 7 running_slot 0))
   \<and> map_of (get_status_dict running_slot) ''state'' = Some (VStr ''running'')"
proof -
  have a: "result_agrees running_slot"
    by (simp add: running_slot_eq result_agrees_def)
  have b: "r_result running_slot \<noteq> None" "r_state running_slot = RUNNING"
    by (simp_all add: running_slot_eq)
  from a b reachable_running_slot
    result_state_invariant [where r = running_slot and oprun = False
       and aname = "''sync-to-array''" and fcount = 3 and cb = None and now = 7
       and work = "Returned None" and st = 1000 and et = 1500 and env = 0 and t = sample_thread]
  show ?thesis by simp
qed

lemma run_on_complete_Some_env:
  "fst (run_on_complete (Some cb) st env pending) = fst (cb st env)"
  by (simp add: run_on_complete_def split: prod.splits option.splits py_exc.splits)

lemma run_action_callback:
  assumes res: "r_result r \<noteq> None"
  shows "fst (run_action aname work cb st et now r env) = fst (run_action aname work None st et now r env)
     \<and> (cb = Some f \<longrightarrow> fst (snd (run_action aname work cb st et now r env))
            = fst (f (r_state (fst (run_action aname work cb st et now r env))) env))"
proof -
  obtain ares emsg log1 pending
    where t: "run_try aname work (r_stop_requested r) = (ares, emsg, log1, pending)"
    by (metis prod_cases4)
  from res obtain res0 where "r_result r = Some res0" by blast
  then obtain r1 where l: "run_locked ares emsg (et - st) now r = Inr r1"
    using run_locked_Inr by blast
  have a: "run_action aname work cb st et now r env
        = (r1, fst (run_on_complete cb (r_state r1) env pending),
           log1 @ fst (snd (run_on_complete cb (r_state r1) env pending)),
           snd (snd (run_on_complete cb (r_state r1) env pending)))" for cb
    using t l by (simp add: run_action_def split: prod.splits)
  show ?thesis
    by (simp add: a run_on_complete_Some_env)
qed

text \<open>
  Claim C5. When the worker thread of a started action carries a completion callback,
  the thread calls it exactly once: the outside world after the thread is the
  callback's effect on the world before, and the callback sees the slot already in its
  terminal state. This holds whatever the service method did. Whatever the callback
  does, returning or raising, the slot's state and stored result are those of the same
  run without a callback.
\<close>

theorem on_complete_called_once:
  assumes "reachable r" and "r_thread r = Some t" and "t_alive t"
    and "t_on_complete t = Some cb"
    and "thread_run t work st et now r env = (r', env', lg, exc)"
  shows "(r_state r' = COMPLETED \<or> r_state r' = FAILED)
     \<and> env' = fst (cb (r_state r') env)
     \<and> r_state r' = r_state (fst (thread_run (t\<lparr>t_on_complete := None\<rparr>) work st et now r env))
     \<and> r_result r' = r_result (fst (thread_run (t\<lparr>t_on_complete := None\<rparr>) work st et now r env))"
proof -
  from assms(1-3) reachable_inv [of r] have "r_state r = RUNNING"
    by (simp add: slot_inv_def)
  with assms(1) reachable_inv [of r] have res: "r_result r \<noteq> None"
    by (simp add: slot_inv_def)
  obtain r1 env1 lg1 exc1
    where ra: "run_action (t_action_name t) work (Some cb) st et now r env = (r1, env1, lg1, exc1)"
    by (metis prod_cases4)
  from run_action_slot [OF ra] res
  have fin: "r_state r1 = COMPLETED \<or> r_state r1 = FAILED" by simp
  from assms(4,5) ra have r': "r' = r1\<lparr>r_thread := Some (t\<lparr>t_alive := False\<rparr>)\<rparr>" and e: "env' = env1"
    by (simp_all add: thread_run_def)
  from run_action_callback [OF res, of "t_action_name t" work "Some cb" st et now env cb] ra
  have same: "r1 = fst (run_action (t_action_name t) work None st et now r env)"
    and once: "env1 = fst (cb (r_state r1) env)"
    by simp_all
  from same have "r_state r1 = r_state (fst (thread_run (t\<lparr>t_on_complete := None\<rparr>) work st et now r env))"
    "r_result r1 = r_result (fst (thread_run (t\<lparr>t_on_complete := None\<rparr>) work st et now r env))"
    by (simp_all add: thread_run_def split: prod.splits)
  with fin once r' e show ?thesis by simp
qed

theorem on_complete_called_once_witness:
  "reachable running_slot \<and> r_thread running_slot = Some sample_thread \<and> t_alive sample_thread
   \<and> t_on_complete sample_thread = Some counting_callback
   \<and> r_state failed_slot = FAILED
   \<and> fst (snd (thread_run sample_thread (Raised (PyException ''boom'')) 1000 1500 160 running_slot 0))
       = fst (counting_callback FAILED 0)
   \<and> fst (counting_callback FAILED 0) = 1"
proof -
  have a: "r_thread running_slot = Some sample_thread" "t_alive sample_thread"
    "t_on_complete sample_thread = Some counting_callback"
    by (simp_all add: running_slot_eq sample_thread_def)
  have b: "r_state failed_slot = FAILED" by (simp add: failed_slot_eq)
  obtain r' env' lg exc where
    tr: "thread_run sample_thread (Raised (PyException ''boom'')) 1000 1500 160 running_slot 0 = (r', env', lg, exc)"
    by (metis prod_cases4)
  then have f: "r' = failed_slot" by (simp add: failed_slot_def)
  from on_complete_called_once [OF reachable_running_slot a tr] f b tr
  have "fst (snd (thread_run sample_thread (Raised (PyException ''boom'')) 1000 1500 160 running_slot 0))
       = fst (counting_callback FAILED 0)"
    by simp
  with a b reachable_running_slot show ?thesis
    by (simp add: counting_callback_def)
qed

lemma run_action_terminal_state:
  assumes "r_result r \<noteq> None"
  shows "r_state (fst (run_action aname work cb st et now r env))
     = (if \<exists>m. work = Raised (PyException m) \<and> m \<noteq> [] then FAILED else COMPLETED)"
proof -
  from assms obtain res where res: "r_result r = Some res" by blast
  have "r_state (fst (run_action aname work None st et now r env))
     = (if \<exists>m. work = Raised (PyException m) \<and> m \<noteq> [] then FAILED else COMPLETED)"
    by (simp add: run_action_def run_try_def run_locked_def run_on_complete_def res
        split: outcome.splits py_exc.splits)
  with run_action_callback [OF assms, of aname work cb st et now env] show ?thesis
    by simp
qed

text \<open>
  Claim C4, evaluated where the code departs from it. The service method of a started
  action raises an exception whose message is empty (\<^verbatim>\<open>raise RuntimeError()\<close>, or a
  failing bare \<^verbatim>\<open>assert\<close>). The test \<^verbatim>\<open>if error_message:\<close> takes the empty string
  for "no error": the slot ends \<open>COMPLETED\<close>, and no error message is stored.
\<close>

theorem run_action_empty_message_completed:
  "r_state running_slot = RUNNING
   \<and> r_state (fst (thread_run sample_thread (Raised (PyException [])) 1000 1500 160 running_slot 0))
       = COMPLETED
   \<and> map_option error_message
        (r_result (fst (thread_run sample_thread (Raised (PyException [])) 1000 1500 160 running_slot 0)))
       = Some None"
  by (simp add: thread_run_def run_action_def run_try_def run_locked_def
      run_on_complete_def running_slot_eq sample_thread_def counting_callback_def)

text \<open>
  Claim C6, as stated, fails on its last part: after \<^verbatim>\<open>dismiss\<close> the result record
  is still stored, but the status snapshot no longer shows it. The failed sample slot
  reports its error message before the dismissal; afterwards the snapshot is the
  two-entry idle dictionary.
\<close>

theorem dismiss_hides_result_counterexample:
  "r_state failed_slot = FAILED
   \<and> map_of (get_status_dict failed_slot) ''error_message'' = Some (VStr ''boom'')
   \<and> map_option error_message (r_result (dismiss failed_slot)) = Some (Some ''boom'')
   \<and> get_status_dict (dismiss failed_slot) = [(''state'', VStr ''idle''), (''is_running'', VBool False)]
   \<and> map_of (get_status_dict (dismiss failed_slot)) ''error_message'' = None
   \<and> map_of (get_status_dict (dismiss failed_slot)) ''action_name'' = None"
  by (simp add: failed_slot_eq get_status_dict_def dismiss_def)

text \<open>
  Claim C6, amended. \<^verbatim>\<open>dismiss\<close> takes a slot from \<open>COMPLETED\<close> or \<open>FAILED\<close> to
  \<open>IDLE\<close> and changes nothing from \<open>IDLE\<close> or \<open>RUNNING\<close>. After a dismissal the
  last result record stays stored in the slot, with its state field set to \<open>IDLE\<close>
  and every other field as it was; the status snapshot reports only the idle state.
  In an idle slot \<^verbatim>\<open>stop_action\<close>, \<^verbatim>\<open>dismiss\<close> and a rejected \<^verbatim>\<open>start_action\<close>
  keep the record; the next accepted \<^verbatim>\<open>start_action\<close> replaces it by a fresh one.
\<close>

theorem dismiss_retains_result:
  "(r_state r = COMPLETED \<or> r_state r = FAILED \<longrightarrow>
      r_state (dismiss r) = IDLE
      \<and> r_result (dismiss r) = map_option (\<lambda>res. res\<lparr>state := IDLE\<rparr>) (r_result r)
      \<and> r_thread (dismiss r) = r_thread r
      \<and> r_stop_requested (dismiss r) = r_stop_requested r
      \<and> get_status_dict (dismiss r) = idle_status)
   \<and> (r_state r = IDLE \<or> r_state r = RUNNING \<longrightarrow> dismiss r = r)
   \<and> (r_state r = IDLE \<longrightarrow>
        fst (snd (stop_action r)) = r
        \<and> fst (snd (start_action True aname fcount cb now r)) = r
        \<and> r_result (fst (snd (start_action False aname fcount cb now r)))
            = Some \<lparr>state = RUNNING, action_name = aname,
                     action_display = format_count (action_display_template aname) (str_int fcount),
                     started_at = Some now, completed_at = None, duration_seconds = 0,
                     action_result = None, error_message = None, file_count = fcount\<rparr>)"
  by (auto simp: dismiss_def get_status_dict_def idle_status_def stop_action_def start_action_def
      Let_def split: option.splits)

theorem dismiss_retains_result_witness:
  "r_state failed_slot = FAILED
   \<and> r_state (dismiss failed_slot) = IDLE
   \<and> map_option error_message (r_result (dismiss failed_slot)) = Some (Some ''boom'')
   \<and> map_option state (r_result (dismiss failed_slot)) = Some IDLE
   \<and> get_status_dict (dismiss failed_slot) = idle_status
   \<and> dismiss (dismiss failed_slot) = dismiss failed_slot
   \<and> r_state running_slot = RUNNING \<and> dismiss running_slot = running_slot
   \<and> fst (snd (stop_action (dismiss failed_slot))) = dismiss failed_slot
   \<and> map_option action_name
        (r_result (fst (snd (start_action False ''fix-with-backup'' 1 None 200 (dismiss failed_slot)))))
       = Some ''fix-with-backup''"
proof -
  have a: "r_state failed_slot = FAILED" "r_state running_slot = RUNNING"
    "map_option error_message (r_result failed_slot) = Some (Some ''boom'')"
    by (simp_all add: failed_slot_eq running_slot_eq)
  have b: "r_state failed_slot = COMPLETED \<or> r_state failed_slot = FAILED"
    "r_state running_slot = IDLE \<or> r_state running_slot = RUNNING"
    using a by simp_all
  from dismiss_retains_result [of failed_slot] b(1)
  have c: "r_state (dismiss failed_slot) = IDLE"
    "r_result (dismiss failed_slot) = map_option (\<lambda>res. res\<lparr>state := IDLE\<rparr>) (r_result failed_slot)"
    "get_status_dict (dismiss failed_slot) = idle_status"
    by blast+
  from dismiss_retains_result [of running_slot] b(2)
  have d: "dismiss running_slot = running_slot" by blast
  from dismiss_retains_result [of "dismiss failed_slot" "''fix-with-backup''" 1 None 200] c(1)
  have e: "dismiss (dismiss failed_slot) = dismiss failed_slot"
    "fst (snd (stop_action (dismiss failed_slot))) = dismiss failed_slot"
    "map_option action_name
        (r_result (fst (snd (start_action False ''fix-with-backup'' 1 None 200 (dismiss failed_slot)))))
       = Some ''fix-with-backup''"
    by simp_all
  from a c d e show ?thesis
    by (simp add: failed_slot_eq)
qed

subsection \<open>The instance lock\<close>

lemma close_fd_fds_same: "os_fds (close_fd os fd) fd = None"
  by (simp add: close_fd_def split: option.splits)

lemma close_fd_fds_other: "fd' \<noteq> fd \<Longrightarrow> os_fds (close_fd os fd) fd' = os_fds os fd'"
  by (simp add: close_fd_def split: option.splits)

lemma close_fd_flock_kept:
  "os_flock os path \<noteq> Some (ThisProcess fd) \<Longrightarrow> os_flock (close_fd os fd) path = os_flock os path"
  by (auto simp: close_fd_def split: option.splits)

lemma close_fd_atexit: "os_atexit (close_fd os fd) = os_atexit os"
  by (simp add: close_fd_def split: option.splits)

lemma py_open_w_ok:
  "\<not> os_open_fails os path \<Longrightarrow>
   \<exists>os1. py_open_w os path = Inr (os_next_fd os, os1)
     \<and> os_fds os1 (os_next_fd os) = Some path
     \<and> os_flock os1 = os_flock os \<and> os_atexit os1 = os_atexit os"
  by (simp add: py_open_w_def)

lemma flock_ex_nb_refused:
  assumes "os_flock os path = Some holder" and "holder \<noteq> ThisProcess fd"
    and "os_fds os fd = Some path \<or> os_fds os fd = None"
  shows "\<exists>e. flock_ex_nb os fd = Inl e"
  using assms by (auto simp: flock_ex_nb_def)

lemma lock_held_elsewhereD:
  assumes "lock_held_elsewhere h os"
  shows "\<exists>holder. os_flock os (lock_file h) = Some holder
     \<and> holder \<noteq> ThisProcess (os_next_fd os)
     \<and> (\<forall>previous. lock_fd h = Some previous \<longrightarrow> holder \<noteq> ThisProcess previous)"
  using assms
  by (auto simp: lock_held_elsewhere_def split: option.splits lock_holder.splits)

lemma stale_handle_eq:
  "stale_handle = \<lparr>lock_file = ''/tmp/plexcache.lock'', lock_fd = None, locked = True\<rparr>"
  by (simp add: stale_handle_def release_def acquire_def acquire_failed_def rebind_lock_fd_def
      new_lock_def sticky_os_def sample_os_def py_open_w_def flock_ex_nb_def write_flush_def
      flock_un_def close_fd_def py_remove_def)

lemma holding_handle_eq:
  "holding_handle = \<lparr>lock_file = ''/tmp/plexcache.lock'', lock_fd = Some 3, locked = True\<rparr>"
  by (simp add: holding_handle_def acquire_def acquire_failed_def rebind_lock_fd_def
      new_lock_def sample_os_def py_open_w_def flock_ex_nb_def write_flush_def)

lemma holding_os_flock:
  "os_flock holding_os ''/tmp/plexcache.lock'' = Some (ThisProcess 3)
   \<and> os_fds holding_os 3 = Some ''/tmp/plexcache.lock'' \<and> os_next_fd holding_os = 4
   \<and> \<not> os_open_fails holding_os ''/tmp/plexcache.lock'' \<and> \<not> os_write_fails holding_os"
  by (simp add: holding_os_def acquire_def acquire_failed_def rebind_lock_fd_def
      new_lock_def sample_os_def py_open_w_def flock_ex_nb_def write_flush_def)

text \<open>
  A handle that holds the lock itself gets it again: the rebinding of \<open>lock_fd\<close>
  closes the descriptor through which it was held, and the lock is taken through the
  new one. Such a handle is not in the situation of a lock held elsewhere.
\<close>

lemma acquire_on_holding_handle:
  "\<not> lock_held_elsewhere holding_handle holding_os
   \<and> fst (acquire holding_handle holding_os) = Inr True
   \<and> lock_fd (fst (snd (acquire holding_handle holding_os))) = Some 4
   \<and> os_flock (snd (snd (acquire holding_handle holding_os))) ''/tmp/plexcache.lock''
       = Some (ThisProcess 4)
   \<and> os_fds (snd (snd (acquire holding_handle holding_os))) 3 = None"
proof -
  have a: "\<not> lock_held_elsewhere holding_handle holding_os"
    using holding_os_flock by (simp add: lock_held_elsewhere_def holding_handle_eq)
  have b: "fst (acquire holding_handle holding_os) = Inr True
     \<and> lock_fd (fst (snd (acquire holding_handle holding_os))) = Some 4"
    using holding_os_flock
    by (simp add: acquire_def acquire_failed_def rebind_lock_fd_def holding_handle_eq
        py_open_w_def flock_ex_nb_def write_flush_def close_fd_def split: option.splits)
  have c: "os_flock (snd (snd (acquire holding_handle holding_os))) ''/tmp/plexcache.lock''
       = Some (ThisProcess 4)
     \<and> os_fds (snd (snd (acquire holding_handle holding_os))) 3 = None"
    using holding_os_flock
    by (simp add: acquire_def acquire_failed_def rebind_lock_fd_def holding_handle_eq
        py_open_w_def flock_ex_nb_def write_flush_def close_fd_def split: option.splits)
  from a b c show ?thesis by blast
qed

text \<open>
  Where the lock is free and the write of the process id fails, the handler's
  \<^verbatim>\<open>close()\<close> raises: \<^verbatim>\<open>acquire\<close> ends with an \<^verbatim>\<open>OSError\<close>, not with \<open>False\<close>.
\<close>

lemma acquire_write_failure_raises:
  "\<exists>e. fst (acquire (new_lock ''/tmp/plexcache.lock'') full_disk_os) = Inl e"
  by (simp add: acquire_def acquire_failed_def rebind_lock_fd_def new_lock_def full_disk_os_def
      sample_os_def py_open_w_def flock_ex_nb_def write_flush_def)

text \<open>
  Claim C7, as stated, fails for a handle whose flag is already set: \<^verbatim>\<open>acquire\<close>
  never clears \<open>locked\<close>. The stale handle above (reached by a successful
  \<^verbatim>\<open>acquire\<close> and a \<^verbatim>\<open>release\<close> that could not remove the file) holds no lock and
  no descriptor. It calls \<^verbatim>\<open>acquire\<close> while another process holds the lock: the call
  returns \<open>False\<close>, and the flag is still set.
\<close>

theorem acquire_locked_flag_counterexample:
  "lock_held_elsewhere stale_handle other_holds_os
   \<and> os_flock other_holds_os (lock_file stale_handle) = Some OtherProcess
   \<and> fst (acquire stale_handle other_holds_os) = Inr False
   \<and> lock_fd (fst (snd (acquire stale_handle other_holds_os))) = None
   \<and> locked (fst (snd (acquire stale_handle other_holds_os))) = True"
  by (simp add: stale_handle_eq lock_held_elsewhere_def other_holds_os_def sample_os_def
      acquire_def acquire_failed_def rebind_lock_fd_def py_open_w_def flock_ex_nb_def
      close_fd_def)

text \<open>
  Claim C7, amended. When the lock file can be opened and its exclusive lock is held
  elsewhere (by another process, or through a descriptor of this process other than the
  handle's own), \<^verbatim>\<open>acquire\<close> returns \<open>False\<close> and raises nothing; the descriptor it
  opened is closed again and the handle's \<open>lock_fd\<close> is cleared; the \<open>locked\<close>
  flag is left as it was before the call, so it is clear for every handle that did not
  have it set; the lock of the file stays with its holder, and nothing is registered
  with \<^verbatim>\<open>atexit\<close>.
\<close>

theorem acquire_lock_held:
  assumes opn: "\<not> os_open_fails os (lock_file h)"
    and held: "lock_held_elsewhere h os"
    and acq: "acquire h os = (res, h', os')"
  shows "res = Inr False
     \<and> lock_fd h' = None
     \<and> locked h' = locked h
     \<and> (\<not> locked h \<longrightarrow> \<not> locked h')
     \<and> lock_file h' = lock_file h
     \<and> os_fds os' (os_next_fd os) = None
     \<and> os_flock os' (lock_file h) = os_flock os (lock_file h)
     \<and> os_atexit os' = os_atexit os"
proof -
  let ?fd = "os_next_fd os"
  let ?path = "lock_file h"
  from py_open_w_ok [OF opn] obtain os1
    where op: "py_open_w os ?path = Inr (?fd, os1)"
      and fds1: "os_fds os1 ?fd = Some ?path"
      and fl1: "os_flock os1 = os_flock os" and at1: "os_atexit os1 = os_atexit os"
    by blast
  from lock_held_elsewhereD [OF held] obtain holder
    where ho: "os_flock os ?path = Some holder"
      and hn: "holder \<noteq> ThisProcess ?fd"
      and hp: "\<forall>previous. lock_fd h = Some previous \<longrightarrow> holder \<noteq> ThisProcess previous"
    by blast
  obtain h1 os2 where rb: "rebind_lock_fd h ?fd os1 = (h1, os2)"
    by (metis surj_pair)
  then have h1: "h1 = h\<lparr>lock_fd := Some ?fd\<rparr>"
    by (simp add: rebind_lock_fd_def)
  have fl2: "os_flock os2 ?path = Some holder"
  proof (cases "lock_fd h")
    case None
    with rb fl1 ho show ?thesis by (simp add: rebind_lock_fd_def)
  next
    case (Some previous)
    with hp ho fl1 have "os_flock os1 ?path \<noteq> Some (ThisProcess previous)" by simp
    from close_fd_flock_kept [OF this] rb Some fl1 ho show ?thesis
      by (simp add: rebind_lock_fd_def)
  qed
  have fds2: "os_fds os2 ?fd = Some ?path \<or> os_fds os2 ?fd = None"
  proof (cases "lock_fd h")
    case None
    with rb fds1 show ?thesis by (simp add: rebind_lock_fd_def)
  next
    case (Some previous)
    with rb have os2: "os2 = close_fd os1 previous" by (simp add: rebind_lock_fd_def)
    show ?thesis
    proof (cases "previous = ?fd")
      case True
      with os2 show ?thesis by (simp add: close_fd_fds_same)
    next
      case False
      then have "?fd \<noteq> previous" by simp
      from close_fd_fds_other [OF this] os2 fds1 show ?thesis by simp
    qed
  qed
  have at2: "os_atexit os2 = os_atexit os"
    using rb at1 by (auto simp: rebind_lock_fd_def close_fd_atexit split: option.splits)
  from flock_ex_nb_refused [OF fl2 hn fds2] obtain e where fl: "flock_ex_nb os2 ?fd = Inl e"
    by blast
  from op rb fl acq h1
  have r: "res = Inr False" "h' = h\<lparr>lock_fd := None\<rparr>" "os' = close_fd os2 ?fd"
    by (simp_all add: acquire_def acquire_failed_def)
  from fl2 hn have "os_flock os2 ?path \<noteq> Some (ThisProcess ?fd)" by simp
  from close_fd_flock_kept [OF this] fl2 ho r(3)
  have "os_flock os' ?path = os_flock os ?path" by simp
  with r at2 show ?thesis
    by (simp add: close_fd_fds_same close_fd_atexit)
qed

theorem acquire_lock_held_witness:
  "\<not> os_open_fails other_holds_os ''/tmp/plexcache.lock''
   \<and> lock_held_elsewhere (new_lock ''/tmp/plexcache.lock'') other_holds_os
   \<and> fst (acquire (new_lock ''/tmp/plexcache.lock'') other_holds_os) = Inr False
   \<and> lock_fd (fst (snd (acquire (new_lock ''/tmp/plexcache.lock'') other_holds_os))) = None
   \<and> \<not> locked (fst (snd (acquire (new_lock ''/tmp/plexcache.lock'') other_holds_os)))
   \<and> os_flock (snd (snd (acquire (new_lock ''/tmp/plexcache.lock'') other_holds_os)))
        ''/tmp/plexcache.lock'' = Some OtherProcess"
proof -
  let ?h = "new_lock ''/tmp/plexcache.lock''"
  have a: "\<not> os_open_fails other_holds_os (lock_file ?h)"
    "lock_held_elsewhere ?h other_holds_os"
    "os_flock other_holds_os ''/tmp/plexcache.lock'' = Some OtherProcess"
    "\<not> locked ?h" "lock_file ?h = ''/tmp/plexcache.lock''"
    by (simp_all add: new_lock_def other_holds_os_def sample_os_def lock_held_elsewhere_def)
  have p: "acquire ?h other_holds_os
     = (fst (acquire ?h other_holds_os), fst (snd (acquire ?h other_holds_os)),
        snd (snd (acquire ?h other_holds_os)))"
    by simp
  from acquire_lock_held [OF a(1) a(2) p] a show ?thesis
    by simp
qed

subsection \<open>The transfer primitive\<close>

lemma copy_file_Inl:
  "fst (copy_try fu src dest verbose fs) = Inl m \<Longrightarrow>
   fst (copy_file_with_permissions fu src dest verbose fs)
     = Inl (RuntimeError (''Error copying file: '' @ m))"
  by (cases "copy_try fu src dest verbose fs")
     (simp add: copy_file_with_permissions_def)

lemma copy_file_Inr:
  "fst (copy_try fu src dest verbose fs) = Inr v \<Longrightarrow>
   fst (copy_file_with_permissions fu src dest verbose fs) = Inr v"
  by (cases "copy_try fu src dest verbose fs")
     (simp add: copy_file_with_permissions_def)

lemma copy_try_value:
  "fst (copy_try fu src dest verbose fs) = Inr v \<Longrightarrow> v = 0"
  by (auto simp: copy_try_def split: if_splits sum.splits prod.splits)

text \<open>
  Claim C9. \<^verbatim>\<open>copy_file_with_permissions\<close> raises
  \<^verbatim>\<open>RuntimeError("Error copying file: " + str(e))\<close> when the source \<^verbatim>\<open>stat\<close>, the
  content copy, the ownership restore or the permission change fails with the error
  \<open>e\<close> (on a platform without ownership, when the copy fails), so the message carries
  the message of the underlying error; a normal return has the value 0 and happens
  exactly when every step succeeded.
\<close>

theorem copy_file_with_permissions_result:
  "(is_linux fu \<and> py_stat fs src = Inl m \<longrightarrow>
      fst (copy_file_with_permissions fu src dest verbose fs)
        = Inl (RuntimeError (''Error copying file: '' @ m)))
   \<and> (is_linux fu \<and> py_stat fs src = Inr si \<and> py_copy2 fs src dest = Inl m \<longrightarrow>
      fst (copy_file_with_permissions fu src dest verbose fs)
        = Inl (RuntimeError (''Error copying file: '' @ m)))
   \<and> (is_linux fu \<and> py_stat fs src = Inr si \<and> py_copy2 fs src dest = Inr fs1
        \<and> py_chown fs1 dest (st_uid si) (st_gid si) = Inl m \<longrightarrow>
      fst (copy_file_with_permissions fu src dest verbose fs)
        = Inl (RuntimeError (''Error copying file: '' @ m)))
   \<and> (is_linux fu \<and> py_stat fs src = Inr si \<and> py_copy2 fs src dest = Inr fs1
        \<and> py_chown fs1 dest (st_uid si) (st_gid si) = Inr fs2
        \<and> py_chmod (snd (py_umask fs2 0)) dest (permissions fu) = Inl m \<longrightarrow>
      fst (copy_file_with_permissions fu src dest verbose fs)
        = Inl (RuntimeError (''Error copying file: '' @ m)))
   \<and> (is_linux fu \<and> py_stat fs src = Inr si \<and> py_copy2 fs src dest = Inr fs1
        \<and> py_chown fs1 dest (st_uid si) (st_gid si) = Inr fs2
        \<and> py_chmod (snd (py_umask fs2 0)) dest (permissions fu) = Inr fs4
        \<and> (verbose \<longrightarrow> (\<exists>ds. py_stat (snd (py_umask fs4 (fs_umask fs2))) dest = Inr ds)) \<longrightarrow>
      fst (copy_file_with_permissions fu src dest verbose fs) = Inr 0)
   \<and> (\<not> is_linux fu \<and> py_copy2 fs src dest = Inl m \<longrightarrow>
      fst (copy_file_with_permissions fu src dest verbose fs)
        = Inl (RuntimeError (''Error copying file: '' @ m)))
   \<and> (\<not> is_linux fu \<and> py_copy2 fs src dest = Inr fs1 \<longrightarrow>
      fst (copy_file_with_permissions fu src dest verbose fs) = Inr 0)
   \<and> (\<forall>v. fst (copy_file_with_permissions fu src dest verbose fs) = Inr v \<longrightarrow> v = 0)
   \<and> (\<forall>e. fst (copy_file_with_permissions fu src dest verbose fs) = Inl e \<longrightarrow>
        (\<exists>m'. e = RuntimeError (''Error copying file: '' @ m')))"
proof (intro conjI impI allI)
  assume "is_linux fu \<and> py_stat fs src = Inl m"
  then have "fst (copy_try fu src dest verbose fs) = Inl m"
    by (simp add: copy_try_def)
  then show "fst (copy_file_with_permissions fu src dest verbose fs)
        = Inl (RuntimeError (''Error copying file: '' @ m))"
    by (rule copy_file_Inl)
next
  assume "is_linux fu \<and> py_stat fs src = Inr si \<and> py_copy2 fs src dest = Inl m"
  then have "fst (copy_try fu src dest verbose fs) = Inl m"
    by (simp add: copy_try_def)
  then show "fst (copy_file_with_permissions fu src dest verbose fs)
        = Inl (RuntimeError (''Error copying file: '' @ m))"
    by (rule copy_file_Inl)
next
  assume "is_linux fu \<and> py_stat fs src = Inr si \<and> py_copy2 fs src dest = Inr fs1
        \<and> py_chown fs1 dest (st_uid si) (st_gid si) = Inl m"
  then have "fst (copy_try fu src dest verbose fs) = Inl m"
    by (simp add: copy_try_def)
  then show "fst (copy_file_with_permissions fu src dest verbose fs)
        = Inl (RuntimeError (''Error copying file: '' @ m))"
    by (rule copy_file_Inl)
next
  assume "is_linux fu \<and> py_stat fs src = Inr si \<and> py_copy2 fs src dest = Inr fs1
        \<and> py_chown fs1 dest (st_uid si) (st_gid si) = Inr fs2
        \<and> py_chmod (snd (py_umask fs2 0)) dest (permissions fu) = Inl m"
  then have "fst (copy_try fu src dest verbose fs) = Inl m"
    by (simp add: copy_try_def py_umask_def)
  then show "fst (copy_file_with_permissions fu src dest verbose fs)
        = Inl (RuntimeError (''Error copying file: '' @ m))"
    by (rule copy_file_Inl)
next
  assume "is_linux fu \<and> py_stat fs src = Inr si \<and> py_copy2 fs src dest = Inr fs1
        \<and> py_chown fs1 dest (st_uid si) (st_gid si) = Inr fs2
        \<and> py_chmod (snd (py_umask fs2 0)) dest (permissions fu) = Inr fs4
        \<and> (verbose \<longrightarrow> (\<exists>ds. py_stat (snd (py_umask fs4 (fs_umask fs2))) dest = Inr ds))"
  then have "fst (copy_try fu src dest verbose fs) = Inr 0"
    by (auto simp: copy_try_def py_umask_def)
  then show "fst (copy_file_with_permissions fu src dest verbose fs) = Inr 0"
    by (rule copy_file_Inr)
next
  assume "\<not> is_linux fu \<and> py_copy2 fs src dest = Inl m"
  then have "fst (copy_try fu src dest verbose fs) = Inl m"
    by (simp add: copy_try_def)
  then show "fst (copy_file_with_permissions fu src dest verbose fs)
        = Inl (RuntimeError (''Error copying file: '' @ m))"
    by (rule copy_file_Inl)
next
  assume "\<not> is_linux fu \<and> py_copy2 fs src dest = Inr fs1"
  then have "fst (copy_try fu src dest verbose fs) = Inr 0"
    by (simp add: copy_try_def)
  then show "fst (copy_file_with_permissions fu src dest verbose fs) = Inr 0"
    by (rule copy_file_Inr)
next
  fix v
  assume a: "fst (copy_file_with_permissions fu src dest verbose fs) = Inr v"
  show "v = 0"
  proof (cases "fst (copy_try fu src dest verbose fs)")
    case (Inl m')
    from copy_file_Inl [OF Inl] a show ?thesis by simp
  next
    case (Inr w)
    from copy_file_Inr [OF Inr] a copy_try_value [OF Inr] show ?thesis by simp
  qed
next
  fix e
  assume a: "fst (copy_file_with_permissions fu src dest verbose fs) = Inl e"
  show "\<exists>m'. e = RuntimeError (''Error copying file: '' @ m')"
  proof (cases "fst (copy_try fu src dest verbose fs)")
    case (Inl m')
    from copy_file_Inl [OF Inl] a show ?thesis by auto
  next
    case (Inr w)
    from copy_file_Inr [OF Inr] a show ?thesis by simp
  qed
qed

lemmas fs_call_defs =
  py_stat_def py_copy2_def py_chown_def py_chmod_def py_umask_def sample_fs_def sample_utils_def

theorem copy_file_with_permissions_result_witness:
  "fst (copy_file_with_permissions sample_utils ''/mnt/cache/tv/missing.mkv''
          ''/mnt/user0/tv/a.mkv'' False sample_fs)
     = Inl (RuntimeError (''Error copying file: '' @ no_such_file ''/mnt/cache/tv/missing.mkv''))
   \<and> fst (copy_file_with_permissions sample_utils ''/mnt/cache/tv/a.mkv''
          ''/mnt/user0/tv/b.mkv'' False sample_fs)
     = Inl (RuntimeError (''Error copying file: '' @ ''[Errno 1] Operation not permitted''))
   \<and> fst (copy_file_with_permissions sample_utils ''/mnt/cache/tv/a.mkv''
          ''/mnt/user0/tv/a.mkv'' True sample_fs)
     = Inr 0"
proof -
  have h1: "is_linux sample_utils
      \<and> py_stat sample_fs ''/mnt/cache/tv/missing.mkv'' = Inl (no_such_file ''/mnt/cache/tv/missing.mkv'')"
    by (simp add: fs_call_defs)
  obtain si where si: "py_stat sample_fs ''/mnt/cache/tv/a.mkv'' = Inr si"
    by (simp add: fs_call_defs)
  obtain fs1 where fs1: "py_copy2 sample_fs ''/mnt/cache/tv/a.mkv'' ''/mnt/user0/tv/b.mkv'' = Inr fs1"
    by (simp add: fs_call_defs)
  obtain fs2 where fs2: "py_chown fs1 ''/mnt/user0/tv/b.mkv'' (st_uid si) (st_gid si) = Inr fs2"
    using fs1 by (auto simp: fs_call_defs)
  have r2: "py_chmod (snd (py_umask fs2 0)) ''/mnt/user0/tv/b.mkv'' (permissions sample_utils)
      = Inl ''[Errno 1] Operation not permitted''"
    using fs1 fs2 by (auto simp: fs_call_defs split: option.splits)
  obtain gs1 where gs1: "py_copy2 sample_fs ''/mnt/cache/tv/a.mkv'' ''/mnt/user0/tv/a.mkv'' = Inr gs1"
    by (simp add: fs_call_defs)
  obtain gs2 where gs2: "py_chown gs1 ''/mnt/user0/tv/a.mkv'' (st_uid si) (st_gid si) = Inr gs2"
    using gs1 by (auto simp: fs_call_defs)
  obtain gs4 where gs4: "py_chmod (snd (py_umask gs2 0)) ''/mnt/user0/tv/a.mkv'' (permissions sample_utils) = Inr gs4"
    using gs1 gs2 by (auto simp: fs_call_defs split: option.splits)
  have r3: "\<exists>ds. py_stat (snd (py_umask gs4 (fs_umask gs2))) ''/mnt/user0/tv/a.mkv'' = Inr ds"
    using gs1 gs2 gs4 by (auto simp: fs_call_defs split: option.splits)
  have l: "is_linux sample_utils" by (simp add: sample_utils_def)
  from h1 copy_file_with_permissions_result
     [where fu = sample_utils and fs = sample_fs and src = "''/mnt/cache/tv/missing.mkv''"
        and dest = "''/mnt/user0/tv/a.mkv''" and verbose = False
        and m = "no_such_file ''/mnt/cache/tv/missing.mkv''"]
  have a: "fst (copy_file_with_permissions sample_utils ''/mnt/cache/tv/missing.mkv''
          ''/mnt/user0/tv/a.mkv'' False sample_fs)
     = Inl (RuntimeError (''Error copying file: '' @ no_such_file ''/mnt/cache/tv/missing.mkv''))"
    by blast
  from l si fs1 fs2 r2 copy_file_with_permissions_result
     [where fu = sample_utils and fs = sample_fs and src = "''/mnt/cache/tv/a.mkv''"
        and dest = "''/mnt/user0/tv/b.mkv''" and verbose = False
        and m = "''[Errno 1] Operation not permitted''" and si = si and ?fs1.0 = fs1 and ?fs2.0 = fs2]
  have b: "fst (copy_file_with_permissions sample_utils ''/mnt/cache/tv/a.mkv''
          ''/mnt/user0/tv/b.mkv'' False sample_fs)
     = Inl (RuntimeError (''Error copying file: '' @ ''[Errno 1] Operation not permitted''))"
    by blast
  from l si gs1 gs2 gs4 r3 copy_file_with_permissions_result
     [where fu = sample_utils and fs = sample_fs and src = "''/mnt/cache/tv/a.mkv''"
        and dest = "''/mnt/user0/tv/a.mkv''" and verbose = True
        and si = si and ?fs1.0 = gs1 and ?fs2.0 = gs2 and ?fs4.0 = gs4]
  have c: "fst (copy_file_with_permissions sample_utils ''/mnt/cache/tv/a.mkv''
          ''/mnt/user0/tv/a.mkv'' True sample_fs) = Inr 0"
    by blast
  from a b c show ?thesis by blast
qed

subsection \<open>ZFS detection\<close>

lemma mounts_loop_iff:
  "mounts_loop share_name lines = (\<exists>line \<in> set lines. zfs_mount_line share_name line)"
  by (induction lines) (auto simp: zfs_mount_line_def Let_def)

lemma detect_zfs_iff:
  "detect_zfs env path =
     (df_says_zfs (df_run env path)
      \<or> (startswith path ''/mnt/user/''
          \<and> (\<exists>share_name lines. share_name_of path = Some share_name
                \<and> proc_mounts env = Some lines
                \<and> (\<exists>line \<in> set lines. zfs_mount_line share_name line))))"
  by (auto simp: detect_zfs_def share_name_of_def check_zfs_mount_for_share_def
      mounts_loop_iff Let_def split: option.splits)

lemma split_on_nonempty: "split_on sep s \<noteq> []"
  by (induction s) (auto split: list.splits)

lemma split_on_no_sep: "sep \<notin> set s \<Longrightarrow> split_on sep s = [s]"
  by (induction s) auto

lemma split_on_first: "sep \<notin> set a \<Longrightarrow> split_on sep (a @ sep # b) = a # split_on sep b"
  by (induction a) auto

lemma split_on_append_last:
  "sep \<notin> set s \<Longrightarrow> split_on sep (d @ sep # s) = split_on sep d @ [s]"
  by (induction d) (auto simp: split_on_no_sep split_on_nonempty split: list.splits)

lemma split_on_pieces: "w \<in> set (split_on sep s) \<Longrightarrow> sep \<notin> set w"
  by (induction s arbitrary: w) (auto split: if_splits list.splits)

lemma split_on_last_decomp:
  "length (split_on sep s) \<ge> 2 \<Longrightarrow> \<exists>d. s = d @ sep # last (split_on sep s)"
proof (induction s)
  case Nil
  then show ?case by simp
next
  case (Cons x xs)
  show ?case
  proof (cases "length (split_on sep xs) \<ge> 2")
    case True
    with Cons.IH obtain d where d: "xs = d @ sep # last (split_on sep xs)" by blast
    from True have "last (split_on sep (x # xs)) = last (split_on sep xs)"
      by (auto split: list.splits)
    with d have "x # xs = (x # d) @ sep # last (split_on sep (x # xs))" by simp
    then show ?thesis by blast
  next
    case False
    with split_on_nonempty [of sep xs] obtain w where w: "split_on sep xs = [w]"
      by (cases "split_on sep xs") (auto simp: Suc_le_eq)
    with Cons.prems have x: "x = sep" by (auto split: if_splits)
    from w split_on_pieces [of w sep xs] have "sep \<notin> set w" by simp
    have "xs = w"
    proof (rule ccontr)
      assume "xs \<noteq> w"
      show False
      proof (cases "sep \<in> set xs")
        case True
        then obtain a b where "xs = a @ sep # b" "sep \<notin> set a"
          by (meson split_list_first)
        with split_on_first [of sep a b] split_on_nonempty [of sep b] w show False
          by (cases "split_on sep b") auto
      next
        case False
        with split_on_no_sep [of sep xs] w \<open>xs \<noteq> w\<close> show False by simp
      qed
    qed
    with x w show ?thesis by auto
  qed
qed

lemma endswith_final_component:
  assumes "CHR ''/'' \<notin> set share_name"
  shows "endswith m (''/'' @ share_name)
     = (length (split_on (CHR ''/'') m) \<ge> 2 \<and> last (split_on (CHR ''/'') m) = share_name)"
proof
  assume "endswith m (''/'' @ share_name)"
  then obtain d where "m = d @ CHR ''/'' # share_name"
    by (auto simp: endswith_def suffix_def)
  with split_on_append_last [OF assms, of d] split_on_nonempty [of "CHR ''/''" d]
  show "length (split_on (CHR ''/'') m) \<ge> 2 \<and> last (split_on (CHR ''/'') m) = share_name"
    by (cases "split_on (CHR ''/'') d") auto
next
  assume a: "length (split_on (CHR ''/'') m) \<ge> 2 \<and> last (split_on (CHR ''/'') m) = share_name"
  with split_on_last_decomp [of "CHR ''/''" m] obtain d where "m = d @ CHR ''/'' # share_name"
    by auto
  then show "endswith m (''/'' @ share_name)"
    by (simp add: endswith_def suffix_def)
qed

lemma rstrip_slash_append:
  "rstrip_slash (a @ b) = (if rstrip_slash b = [] then rstrip_slash a else a @ rstrip_slash b)"
  by (auto simp: rstrip_slash_def dropWhile_append)

lemma rstrip_slash_append_nonempty:
  "rstrip_slash b \<noteq> [] \<Longrightarrow> rstrip_slash (a @ b) = a @ rstrip_slash b"
  by (simp add: rstrip_slash_append)

lemma rstrip_slash_keep: "s \<noteq> [] \<Longrightarrow> last s \<noteq> CHR ''/'' \<Longrightarrow> rstrip_slash s = s"
  by (cases s rule: rev_cases) (auto simp: rstrip_slash_def)

lemma rstrip_slash_prefix: "prefix (rstrip_slash s) s"
proof -
  have "suffix (dropWhile (\<lambda>c. c = CHR ''/'') (rev s)) (rev s)"
    by (rule suffix_dropWhile)
  then show ?thesis
    by (metis rstrip_slash_def rev_rev_ident suffix_to_prefix)
qed

lemma share_name_of_path:
  assumes p: "path = ''/mnt/user/'' @ share_name @ rest"
    and ne: "share_name \<noteq> []" and ns: "CHR ''/'' \<notin> set share_name"
    and r: "rest = [] \<or> hd rest = CHR ''/''"
  shows "share_name_of path = Some share_name"
proof -
  from ne ns have l: "last share_name \<noteq> CHR ''/''" by (metis last_in_set)
  define rest' where "rest' = rstrip_slash rest"
  have sr: "rstrip_slash (share_name @ rest) = share_name @ rest'"
    using ne l by (simp add: rstrip_slash_append rstrip_slash_keep rest'_def)
  then have ne': "rstrip_slash (share_name @ rest) \<noteq> []" using ne by simp
  have "rstrip_slash (''/mnt/user/'' @ (share_name @ rest))
      = ''/mnt/user/'' @ rstrip_slash (share_name @ rest)"
    by (rule rstrip_slash_append_nonempty [OF ne'])
  with p sr have rp: "rstrip_slash path = ''/mnt/user/'' @ share_name @ rest'"
    by simp
  from rstrip_slash_prefix [of rest] r have r': "rest' = [] \<or> (\<exists>t. rest' = CHR ''/'' # t)"
    unfolding rest'_def by (cases rest; cases "rstrip_slash rest") (auto simp: prefix_def)
  have "\<exists>ws. split_on (CHR ''/'') (share_name @ rest') = share_name # ws"
  proof (cases "rest' = []")
    case True
    with ns show ?thesis by (simp add: split_on_no_sep)
  next
    case False
    with r' obtain t where "rest' = CHR ''/'' # t" by blast
    with split_on_first [OF ns, of t] show ?thesis by simp
  qed
  then obtain ws where "split_on (CHR ''/'') (share_name @ rest') = share_name # ws" by blast
  with rp have "split_on (CHR ''/'') (rstrip_slash path) = [] # ''mnt'' # ''user'' # share_name # ws"
    by simp
  then show ?thesis by (simp add: share_name_of_def)
qed

lemma contains_iff_sublist: "contains s sub = sublist sub s"
  by (induction s) (auto simp: sublist_Cons_right)

lemma sublist_map_same: "sublist a b \<Longrightarrow> sublist (map f a) (map f b)"
  unfolding sublist_def by (metis map_append)

lemma split_on_sublist: "w \<in> set (split_on sep s) \<Longrightarrow> sublist w s"
proof (induction s arbitrary: w)
  case Nil
  then show ?case by simp
next
  case (Cons x xs)
  show ?case
  proof (cases "x = sep")
    case True
    with Cons show ?thesis by (auto simp: sublist_Cons_right)
  next
    case False
    obtain v vs where v: "split_on sep xs = v # vs"
      using split_on_nonempty [of sep xs] by (cases "split_on sep xs") auto
    with False Cons.prems have "w = x # v \<or> w \<in> set vs" by auto
    then show ?thesis
    proof
      assume w: "w = x # v"
      have "prefix v xs" using v
      proof (induction xs arbitrary: v vs)
        case Nil
        then show ?case by simp
      next
        case (Cons y ys)
        then show ?case
          by (cases "split_on sep ys") (auto split: if_splits)
      qed
      with w have "prefix w (x # xs)" by simp
      then show ?thesis by (rule prefix_imp_sublist)
    next
      assume "w \<in> set vs"
      with v Cons.IH [of w] show ?thesis by (simp add: sublist_Cons_right)
    qed
  qed
qed

lemma split_ws_acc_sublist:
  "w \<in> set (split_ws_acc cur s) \<Longrightarrow> sublist w (rev cur @ s)"
proof (induction cur s rule: split_ws_acc.induct)
  case (1 cur)
  then show ?case by (auto split: if_splits)
next
  case (2 cur x xs)
  show ?case
  proof (cases "is_space x")
    case True
    with "2.prems" have "w = rev cur \<or> w \<in> set (split_ws_acc [] xs)"
      by (auto split: if_splits)
    then show ?thesis
    proof
      assume "w = rev cur"
      then have "prefix w (rev cur @ x # xs)" by simp
      then show ?thesis by (rule prefix_imp_sublist)
    next
      assume a: "w \<in> set (split_ws_acc [] xs)"
      have "sublist w xs"
      proof (cases "cur = []")
        case True
        with "2.IH"(1) [OF \<open>is_space x\<close> True a] show ?thesis by simp
      next
        case False
        with "2.IH"(2) [OF \<open>is_space x\<close> False a] show ?thesis by simp
      qed
      then have "sublist w (x # xs)" by (simp add: sublist_Cons_right)
      then show ?thesis by (metis sublist_append_leftI sublist_order.order.trans sublist_order.order_refl)
    qed
  next
    case False
    with "2.prems" "2.IH"(3) [OF False] show ?thesis by simp
  qed
qed

lemma split_ws_sublist: "w \<in> set (split_ws s) \<Longrightarrow> sublist w s"
  using split_ws_acc_sublist [of w "[]" s] by (simp add: split_ws_def)

text \<open>
  A reported ZFS type is always detected: whenever the type column of the
  \<^verbatim>\<open>df -T\<close> row is a ZFS type, the substring test of the source finds it.
\<close>

lemma spec_probe_reports_zfs_detected:
  assumes "spec_probe_reports_zfs (df_run env path)"
  shows "detect_zfs env path"
proof -
  from assms obtain rc out ty where res: "df_run env path = DfCompleted rc out"
    and rc: "rc = 0" and ty: "spec_df_fs_type out = Some ty" and z: "py_lower ty = ''zfs''"
    by (auto simp: spec_probe_reports_zfs_def split: df_result.splits)
  from ty obtain header row others device columns
    where sp: "split_on (CHR 0x0A) out = header # row # others"
      and fs: "split_ws row = device # ty # columns"
    by (auto simp: spec_df_fs_type_def split: list.splits)
  from sp have row: "row \<in> set (split_on (CHR 0x0A) out)" by simp
  from fs have f: "ty \<in> set (split_ws row)" by simp
  from f have "sublist ty row" by (rule split_ws_sublist)
  moreover from row have "sublist row out" by (rule split_on_sublist)
  ultimately have "sublist ty out" by (rule sublist_order.order.trans)
  then have "sublist (py_lower ty) (py_lower out)"
    unfolding py_lower_def by (rule sublist_map_same)
  with z have "contains (py_lower out) ''zfs''" by (simp add: contains_iff_sublist)
  with res rc show ?thesis by (simp add: detect_zfs_def df_says_zfs_def)
qed

text \<open>
  Claim C2, evaluated where the code departs from it. \<^verbatim>\<open>df -T\<close> succeeds for a path
  on an ext4 disk mounted at \<^verbatim>\<open>/mnt/disks/zfs_old\<close>: the type it reports is
  \<^verbatim>\<open>ext4\<close>, the path is not under \<^verbatim>\<open>/mnt/user/\<close>, so the fallback does not apply,
  and the mount table has no ZFS entry. The source tests whether the letters
  \<^verbatim>\<open>zfs\<close> occur anywhere in the output; they occur in the mount point, and
  \<^verbatim>\<open>detect_zfs\<close> returns \<open>True\<close>.
\<close>

theorem detect_zfs_substring_false_positive:
  "df_run ext4_env ''/mnt/disks/zfs_old/movies'' = DfCompleted 0 ext4_df_output
   \<and> spec_df_fs_type ext4_df_output = Some ''ext4''
   \<and> \<not> spec_probe_reports_zfs (df_run ext4_env ''/mnt/disks/zfs_old/movies'')
   \<and> \<not> startswith ''/mnt/disks/zfs_old/movies'' ''/mnt/user/''
   \<and> \<not> check_zfs_mount_for_share ext4_env ''zfs_old''
   \<and> detect_zfs ext4_env ''/mnt/disks/zfs_old/movies'' = True"
proof -
  have a: "df_run ext4_env ''/mnt/disks/zfs_old/movies'' = DfCompleted 0 ext4_df_output"
    by (simp add: ext4_env_def)
  have b: "spec_df_fs_type ext4_df_output = Some ''ext4''"
    by (simp add: spec_df_fs_type_def ext4_df_output_def split_ws_def is_space_def)
  have c: "contains (py_lower ext4_df_output) ''zfs''"
    by (simp add: ext4_df_output_def py_lower_def lower_char_def)
  have d: "\<not> startswith ''/mnt/disks/zfs_old/movies'' ''/mnt/user/''"
    by (simp add: startswith_def)
  have e: "\<not> check_zfs_mount_for_share ext4_env ''zfs_old''"
    by (simp add: check_zfs_mount_for_share_def ext4_env_def split_ws_def is_space_def)
  have f: "py_lower ''ext4'' \<noteq> ''zfs''"
    by (simp add: py_lower_def lower_char_def)
  from a b f have g: "\<not> spec_probe_reports_zfs (df_run ext4_env ''/mnt/disks/zfs_old/movies'')"
    by (simp add: spec_probe_reports_zfs_def)
  from a c have "detect_zfs ext4_env ''/mnt/disks/zfs_old/movies''"
    by (simp add: detect_zfs_def df_says_zfs_def)
  with a b d e g show ?thesis by simp
qed

text \<open>The string functions on the inputs of the source's comments.\<close>

lemma split_on_example:
  "split_on (CHR ''/'') (rstrip_slash ''/mnt/user/plex_media/Movies/'')
     = ['''', ''mnt'', ''user'', ''plex_media'', ''Movies'']
   \<and> split_on (CHR ''/'') (rstrip_slash ''/mnt/user/'') = ['''', ''mnt'', ''user'']
   \<and> split_on (CHR ''/'') '''' = ['''']"
  by (simp add: rstrip_slash_def)

lemma split_ws_example:
  "split_ws (''plex/plex_media /mnt/plex/plex_media  zfs rw,xattr,posixacl 0 0'' @ [CHR 0x0A])
     = [''plex/plex_media'', ''/mnt/plex/plex_media'', ''zfs'', ''rw,xattr,posixacl'', ''0'', ''0'']
   \<and> split_ws '' '' = []"
  by (simp add: split_ws_def is_space_def)

lemma str_int_example:
  "str_int 2048 = ''2048'' \<and> str_int (- 7) = ''-7'' \<and> str_int 0 = ''0''"
  by (simp add: str_int_def digit_char_def)

lemma action_display_example:
  "format_count (action_display_template ''sync-to-array'') (str_int 12)
     = ''Moving 12 file(s) to array...''
   \<and> format_count (action_display_template ''unknown-action'') (str_int 12)
     = ''Running maintenance action...''"
  by (simp add: action_display_template_def ACTION_DISPLAY_def str_int_def digit_char_def)

text \<open>
  The fallback finds the dataset: the primary check fails with an \<^verbatim>\<open>OSError\<close>, the
  path lies under \<^verbatim>\<open>/mnt/user/\<close>, and a ZFS mount point ends in the share name. A
  path outside \<^verbatim>\<open>/mnt/user/\<close> gets \<open>False\<close> in the same environment.
\<close>

lemma detect_zfs_fallback_example:
  "detect_zfs plex_env ''/mnt/user/plex_media/Movies/a.mkv''
   \<and> \<not> detect_zfs plex_env ''/mnt/user/tv/a.mkv''
   \<and> \<not> detect_zfs plex_env ''/mnt/plex/plex_media/Movies/a.mkv''"
  by (simp add: detect_zfs_def df_says_zfs_def plex_env_def startswith_def endswith_def
      rstrip_slash_def check_zfs_mount_for_share_def split_ws_def is_space_def
      suffix_to_prefix)

end
